theory Spec2Isabelle
  imports Complex_Main
begin

section \<open>The leaderboard front end (frontend/src/App.js)\<close>

text \<open>
  A shallow embedding of the pure helpers and of the fetch cycle of \<^verbatim>\<open>App.js\<close>:
  the duration and percent formatters, the monthly reset target, the even-hour scheduler,
  the country resolver, the rank map, and \<^verbatim>\<open>loadData\<close> with its local-storage and
  React-state effects. JSX layout and styling are not modelled.
\<close>

subsection \<open>JavaScript values\<close>

text \<open>
  A JavaScript number is \<open>NaN\<close>, an infinity, or a finite double. A finite double is
  modelled by the real number it denotes (the doubles are a subset of the reals, and
  \<open>+0\<close> and \<open>-0\<close> are both \<open>Fin 0\<close>: no operation below tells them apart).
  Comparison, \<^verbatim>\<open>Math.min\<close>, \<^verbatim>\<open>Math.floor\<close>, \<^verbatim>\<open>toFixed\<close> and the sign of a
  difference are exact on doubles, so they are exact in the model; a product such as
  \<^verbatim>\<open>h * 60\<close> is the exact product, which is the double product whenever that product is
  representable (as for every input evaluated below).
\<close>

datatype jsnum = NaN | NegInf | Fin real | PosInf

text \<open>
  What reading a property of a row gives: \<open>Undefined\<close> when the key is absent,
  \<open>Null\<close> for JSON \<^verbatim>\<open>null\<close>, or a value. The columns are typed as the REST
  endpoint delivers them: text columns hold strings, numeric columns hold numbers.
\<close>

datatype 'a field = Undefined | Null | Val 'a

text \<open>\<^verbatim>\<open>Number(v)\<close> for a numeric column: \<^verbatim>\<open>Number(undefined)\<close> is \<open>NaN\<close> and
  \<^verbatim>\<open>Number(null)\<close> is \<open>0\<close>.\<close>

fun Number_js :: "jsnum field \<Rightarrow> jsnum" where
  "Number_js Undefined = NaN"
| "Number_js Null = Fin 0"
| "Number_js (Val n) = n"

fun isFinite :: "jsnum \<Rightarrow> bool" where
  "isFinite (Fin x) = True"
| "isFinite _ = False"

fun isNaN :: "jsnum \<Rightarrow> bool" where
  "isNaN NaN = True"
| "isNaN _ = False"

text \<open>\<^verbatim>\<open>a > 0\<close> on numbers: false for \<open>NaN\<close>.\<close>

fun gt0 :: "jsnum \<Rightarrow> bool" where
  "gt0 (Fin x) = (0 < x)"
| "gt0 PosInf = True"
| "gt0 _ = False"

text \<open>\<^verbatim>\<open>a - b\<close> on numbers. For finite doubles the difference has the sign of the exact
  difference (gradual underflow) and overflows to an infinity of that sign; only its sign
  is used below. \<open>\<infinity> - \<infinity>\<close> is \<open>NaN\<close>.\<close>

fun js_minus :: "jsnum \<Rightarrow> jsnum \<Rightarrow> jsnum" where
  "js_minus NaN _ = NaN"
| "js_minus _ NaN = NaN"
| "js_minus (Fin x) (Fin y) = Fin (x - y)"
| "js_minus (Fin x) NegInf = PosInf"
| "js_minus (Fin x) PosInf = NegInf"
| "js_minus NegInf (Fin y) = NegInf"
| "js_minus PosInf (Fin y) = PosInf"
| "js_minus NegInf PosInf = NegInf"
| "js_minus PosInf NegInf = PosInf"
| "js_minus NegInf NegInf = NaN"
| "js_minus PosInf PosInf = NaN"

text \<open>\<^verbatim>\<open>Math.min(a, b)\<close>.\<close>

fun Math_min :: "jsnum \<Rightarrow> jsnum \<Rightarrow> jsnum" where
  "Math_min NaN _ = NaN"
| "Math_min _ NaN = NaN"
| "Math_min NegInf _ = NegInf"
| "Math_min _ NegInf = NegInf"
| "Math_min PosInf b = b"
| "Math_min a PosInf = a"
| "Math_min (Fin x) (Fin y) = Fin (min x y)"

subsection \<open>Formatting helpers\<close>

text \<open>\<^verbatim>\<open>String(n)\<close> for a non-negative integer below \<open>10\<^sup>2\<^sup>1\<close>: its decimal digits.\<close>

fun decimal :: "nat \<Rightarrow> string" where
  "decimal n = (if n < 10 then [''0123456789'' ! n]
                else decimal (n div 10) @ [''0123456789'' ! (n mod 10)])"

text \<open>\<^verbatim>\<open>function pad2(n){ return String(n).padStart(2, "0"); }\<close>\<close>

definition pad2 :: "nat \<Rightarrow> string" where
  "pad2 n = (let s = decimal n in replicate (2 - length s) CHR ''0'' @ s)"

text \<open>
  \<^verbatim>\<open>fmtDDHHMM(hoursVal)\<close>: \<^verbatim>\<open>h = Number(hoursVal)\<close>; a non-finite or non-positive
  \<open>h\<close> gives \<^verbatim>\<open>"00:00:00"\<close>; otherwise days, hours and minutes of
  \<^verbatim>\<open>Math.floor(h * 60)\<close>. The product is taken exactly here. JavaScript rounds it to
  the nearest double, so the two agree whenever the exact product is a double (every
  integer and half-integer number of hours below \<open>2\<^sup>5\<^sup>3 / 60\<close> among them); they
  differ by a minute where the rounding reaches the next integer (the double nearest to
  \<open>0.35\<close>, whose exact product lies just below \<open>21\<close>), and where the product
  overflows.
\<close>

definition fmtDDHHMM :: "jsnum field \<Rightarrow> string" where
  "fmtDDHHMM hoursVal =
     (case Number_js hoursVal of
        Fin h \<Rightarrow>
          if h \<le> 0 then ''00:00:00''
          else
            let totalMinutes = nat \<lfloor>h * 60\<rfloor>;
                dd = totalMinutes div (24 * 60);
                rem = totalMinutes mod (24 * 60);
                hh = rem div 60;
                mm = rem mod 60
            in pad2 dd @ '':'' @ pad2 hh @ '':'' @ pad2 mm
      | _ \<Rightarrow> ''00:00:00'')"

text \<open>\<^verbatim>\<open>numVal(v)\<close>: \<^verbatim>\<open>Number(v)\<close>, or \<^verbatim>\<open>null\<close> when that is \<open>NaN\<close>.\<close>

definition numVal :: "jsnum field \<Rightarrow> jsnum field" where
  "numVal v = (let n = Number_js v in if isNaN n then Null else Val n)"

text \<open>
  \<^verbatim>\<open>n.toFixed(2)\<close>: the integer \<open>k\<close> with \<open>k / 100\<close> nearest to the value (the larger one
  on a tie), printed with two decimals; a negative value prints \<open>-\<close> and its magnitude.
  Exact below \<open>10\<^sup>2\<^sup>1\<close> in magnitude, where JavaScript switches to exponent notation.
\<close>

definition toFixed2 :: "jsnum \<Rightarrow> string" where
  "toFixed2 n =
     (case n of
        NaN \<Rightarrow> ''NaN''
      | PosInf \<Rightarrow> ''Infinity''
      | NegInf \<Rightarrow> ''-Infinity''
      | Fin x \<Rightarrow>
          (let k = nat \<lfloor>\<bar>x\<bar> * 100 + 1 / 2\<rfloor>
           in (if x < 0 then ''-'' else '''') @ decimal (k div 100) @ ''.'' @ pad2 (k mod 100)))"

text \<open>
  \<^verbatim>\<open>fmtPct(v)\<close>: empty for \<^verbatim>\<open>null\<close>, \<^verbatim>\<open>undefined\<close> and \<open>NaN\<close>; otherwise a
  \<open>+\<close> for a positive value, two decimals and a percent sign.
\<close>

definition fmtPct :: "jsnum field \<Rightarrow> string" where
  "fmtPct v =
     (if v = Null \<or> v = Undefined \<or> isNaN (Number_js v) then ''''
      else
        let n = Number_js v;
            sign = (if gt0 n then ''+'' else '''')
        in sign @ toFixed2 n @ ''%'')"

subsection \<open>Rows\<close>

text \<open>
  The nine columns selected by \<^verbatim>\<open>SB_SELECT\<close>. The same record serves for a row as
  received (any column may be absent or \<^verbatim>\<open>null\<close>) and for a row after \<^verbatim>\<open>norm\<close>.
  Columns outside the nine are dropped by \<^verbatim>\<open>norm\<close> and are not represented.
\<close>

record row =
  customer_name :: "string field"
  account_id :: "string field"
  country :: "string field"
  plan :: "string field"
  equity :: "jsnum field"
  open_pnl :: "jsnum field"
  pct_change :: "jsnum field"
  time_taken_hours :: "jsnum field"
  updated_at :: "string field"

text \<open>\<^verbatim>\<open>v ?? d\<close>: the default replaces \<^verbatim>\<open>undefined\<close> and \<^verbatim>\<open>null\<close> only.\<close>

fun nullish :: "'a field \<Rightarrow> 'a field \<Rightarrow> 'a field" where
  "nullish Undefined d = d"
| "nullish Null d = d"
| "nullish (Val x) d = Val x"

text \<open>The \<^verbatim>\<open>norm\<close> closure of \<^verbatim>\<open>loadData\<close>.\<close>

definition norm :: "row \<Rightarrow> row" where
  "norm r =
     \<lparr> customer_name = nullish (customer_name r) (Val ''''),
       account_id = nullish (account_id r) (Val ''''),
       country = nullish (country r) (Val ''''),
       plan = nullish (plan r) Null,
       equity = nullish (equity r) Null,
       open_pnl = nullish (open_pnl r) Null,
       pct_change = nullish (pct_change r) Null,
       time_taken_hours = nullish (time_taken_hours r) Null,
       updated_at = nullish (updated_at r) Null \<rparr>"

subsection \<open>Rank map\<close>

text \<open>
  \<^verbatim>\<open>Object.create(null)\<close> filled by \<^verbatim>\<open>m[id] = i\<close>: a finite map from identifiers to
  indices, with no inherited keys.
\<close>

type_synonym rankmap = "string \<rightharpoonup> nat"

text \<open>\<^verbatim>\<open>String(rows[i]?.account_id ?? "")\<close> for a text column.\<close>

definition id_of :: "row \<Rightarrow> string" where
  "id_of r = (case nullish (account_id r) (Val '''') of Val s \<Rightarrow> s | _ \<Rightarrow> '''')"

text \<open>The loop of \<^verbatim>\<open>buildRankMap\<close>, from index \<open>i\<close> on: \<^verbatim>\<open>if (id) m[id] = i\<close>.\<close>

fun buildRankMap_from :: "nat \<Rightarrow> row list \<Rightarrow> rankmap \<Rightarrow> rankmap" where
  "buildRankMap_from i [] m = m"
| "buildRankMap_from i (r # rs) m =
     buildRankMap_from (Suc i) rs (if id_of r \<noteq> '''' then m(id_of r \<mapsto> i) else m)"

definition buildRankMap :: "row list \<Rightarrow> rankmap" where
  "buildRankMap rows = buildRankMap_from 0 rows Map.empty"

subsection \<open>The client-side sort\<close>

datatype error = ConfigError | NetworkError | HttpError nat | SyntaxError | TypeError

text \<open>
  The comparator of \<^verbatim>\<open>rows.sort\<close>. An element of the parsed array is an object or
  JSON \<^verbatim>\<open>null\<close> (\<open>None\<close>); reading \<^verbatim>\<open>pct_change\<close> of \<^verbatim>\<open>null\<close> throws.
\<close>

definition sort_key :: "row \<Rightarrow> jsnum" where
  "sort_key a =
     (if isFinite (Number_js (pct_change a)) then Number_js (pct_change a) else NegInf)"

definition comparator :: "row option \<Rightarrow> row option \<Rightarrow> error + jsnum" where
  "comparator a b =
     (case a of None \<Rightarrow> Inl TypeError
      | Some ra \<Rightarrow>
          (case b of None \<Rightarrow> Inl TypeError
           | Some rb \<Rightarrow>
               let av = sort_key ra; bv = sort_key rb
               in Inr (js_minus bv av)))"

text \<open>
  \<^verbatim>\<open>Array.prototype.sort\<close> is stable, and a comparator result that is \<open>NaN\<close> counts as
  \<open>0\<close>. It is modelled by stable insertion: an element goes behind those it compares
  greater than (\<open>> 0\<close>) and stays in front of the rest. A throwing comparator aborts the
  sort.
\<close>

fun insert_by :: "('a \<Rightarrow> 'a \<Rightarrow> error + jsnum) \<Rightarrow> 'a \<Rightarrow> 'a list \<Rightarrow> error + 'a list" where
  "insert_by cmp x [] = Inr [x]"
| "insert_by cmp x (y # ys) =
     (case cmp x y of
        Inl e \<Rightarrow> Inl e
      | Inr c \<Rightarrow>
          if gt0 c then
            (case insert_by cmp x ys of Inl e \<Rightarrow> Inl e | Inr zs \<Rightarrow> Inr (y # zs))
          else Inr (x # y # ys))"

fun sort_by :: "('a \<Rightarrow> 'a \<Rightarrow> error + jsnum) \<Rightarrow> 'a list \<Rightarrow> error + 'a list" where
  "sort_by cmp [] = Inr []"
| "sort_by cmp (x # xs) =
     (case sort_by cmp xs of Inl e \<Rightarrow> Inl e | Inr ys \<Rightarrow> insert_by cmp x ys)"

text \<open>An element may stand in front of another when the comparator does not put it behind:
  for two rows, when the key of the second is not greater than the key of the first.\<close>

definition may_precede :: "row option \<Rightarrow> row option \<Rightarrow> bool" where
  "may_precede x y \<longleftrightarrow>
     (\<forall>a b. x = Some a \<and> y = Some b \<longrightarrow> \<not> gt0 (js_minus (sort_key b) (sort_key a)))"

text \<open>\<^verbatim>\<open>rows.map(norm)\<close>: \<^verbatim>\<open>norm(null)\<close> throws on its first property read.\<close>

fun map_norm :: "row option list \<Rightarrow> error + row list" where
  "map_norm [] = Inr []"
| "map_norm (None # xs) = Inl TypeError"
| "map_norm (Some r # xs) =
     (case map_norm xs of Inl e \<Rightarrow> Inl e | Inr rs \<Rightarrow> Inr (norm r # rs))"

subsection \<open>The net-percent cell\<close>

text \<open>
  Desktop table (\<^verbatim>\<open>App\<close>) and mobile cards (\<^verbatim>\<open>MobileLeaderboardCards\<close>) compute
  \<^verbatim>\<open>nRaw = numVal(row.pct_change)\<close>,
  \<^verbatim>\<open>n = (nRaw == null) ? null : Math.min(nRaw, 100)\<close> and render \<^verbatim>\<open>fmtPct(n)\<close>.
\<close>

definition desktop_n :: "row \<Rightarrow> jsnum field" where
  "desktop_n r =
     (let nRaw = numVal (pct_change r)
      in case nRaw of Val x \<Rightarrow> Val (Math_min x (Fin 100)) | _ \<Rightarrow> Null)"

definition desktop_pct_cell :: "row \<Rightarrow> string" where
  "desktop_pct_cell r = fmtPct (desktop_n r)"

definition mobile_n :: "row \<Rightarrow> jsnum field" where
  "mobile_n r =
     (let nRaw = numVal (pct_change r)
      in case nRaw of Val x \<Rightarrow> Val (Math_min x (Fin 100)) | _ \<Rightarrow> Null)"

definition mobile_pct_cell :: "row \<Rightarrow> string" where
  "mobile_pct_cell r = fmtPct (mobile_n r)"

subsection \<open>Dates\<close>

text \<open>
  A \<^verbatim>\<open>Date\<close> holds a time value: milliseconds since 1970-01-01T00:00:00Z. A clock
  reading (\<^verbatim>\<open>new Date()\<close>) is a natural number. The UTC calendar follows the
  ECMAScript date algorithms from 1970 on: the year and the month of a day are found by
  taking whole years, then whole months, off the day number. \<^verbatim>\<open>Date.UTC\<close> is
  modelled without its final range check (time values beyond \<open>8.64 * 10\<^sup>1\<^sup>5\<close>).
\<close>

definition msPerDay :: nat where
  "msPerDay = 86400000"

definition Day :: "nat \<Rightarrow> nat" where
  "Day t = t div msPerDay"

definition DaysInYear :: "nat \<Rightarrow> nat" where
  "DaysInYear y =
     (if y mod 4 \<noteq> 0 then 365 else if y mod 100 \<noteq> 0 then 366
      else if y mod 400 \<noteq> 0 then 365 else 366)"

text \<open>Year and day within the year of day number \<open>d\<close>, counted from the first day of
  year \<open>y\<close>.\<close>

function year_of_day :: "nat \<Rightarrow> nat \<Rightarrow> nat \<times> nat" where
  "year_of_day y d =
     (if d < DaysInYear y then (y, d) else year_of_day (Suc y) (d - DaysInYear y))"
  by pat_completeness auto
termination
  by (relation "measure snd") (auto simp: DaysInYear_def)

definition YearFromTime :: "nat \<Rightarrow> nat" where
  "YearFromTime t = fst (year_of_day 1970 (Day t))"

definition DayWithinYear :: "nat \<Rightarrow> nat" where
  "DayWithinYear t = snd (year_of_day 1970 (Day t))"

definition month_lengths :: "nat \<Rightarrow> nat list" where
  "month_lengths y =
     [31, if DaysInYear y = 366 then 29 else 28, 31, 30, 31, 30, 31, 31, 30, 31, 30, 31]"

text \<open>Month (from \<open>m\<close> on) and day within the month of day \<open>d\<close> of a year.\<close>

fun month_of_day :: "nat list \<Rightarrow> nat \<Rightarrow> nat \<Rightarrow> nat \<times> nat" where
  "month_of_day [] m d = (m, d)"
| "month_of_day (l # ls) m d =
     (if d < l then (m, d) else month_of_day ls (Suc m) (d - l))"

text \<open>\<^verbatim>\<open>getUTCFullYear\<close> is \<open>YearFromTime\<close>; \<^verbatim>\<open>getUTCMonth\<close> (0-11) and
  \<^verbatim>\<open>getUTCDate\<close> (1-31):\<close>

definition MonthFromTime :: "nat \<Rightarrow> nat" where
  "MonthFromTime t = fst (month_of_day (month_lengths (YearFromTime t)) 0 (DayWithinYear t))"

definition DateFromTime :: "nat \<Rightarrow> nat" where
  "DateFromTime t =
     snd (month_of_day (month_lengths (YearFromTime t)) 0 (DayWithinYear t)) + 1"

text \<open>Day number of the first day of year \<open>y\<close>.\<close>

fun DayFromYear :: "nat \<Rightarrow> nat" where
  "DayFromYear y = (if y \<le> 1970 then 0 else DayFromYear (y - 1) + DaysInYear (y - 1))"

text \<open>\<open>MakeDay\<close>: a month index beyond 11 carries into the year.\<close>

definition MakeDay :: "nat \<Rightarrow> nat \<Rightarrow> nat \<Rightarrow> nat" where
  "MakeDay year month date =
     (let ym = year + month div 12;
          mn = month mod 12
      in DayFromYear ym + sum_list (take mn (month_lengths ym)) + date - 1)"

definition Date_UTC :: "nat \<Rightarrow> nat \<Rightarrow> nat \<Rightarrow> nat \<Rightarrow> nat \<Rightarrow> nat \<Rightarrow> nat" where
  "Date_UTC y m d h mi s = MakeDay y m d * msPerDay + ((h * 60 + mi) * 60 + s) * 1000"

text \<open>\<^verbatim>\<open>getNextMonthResetTarget(now)\<close>: \<^verbatim>\<open>new Date(Date.UTC(y, m + 1, 1, 0, 0, 0))\<close>.\<close>

definition getNextMonthResetTarget :: "nat \<Rightarrow> nat" where
  "getNextMonthResetTarget now =
     (let y = YearFromTime now;
          m = MonthFromTime now
      in Date_UTC y (m + 1) 1 0 0 0)"

record dhms =
  dhms_d :: nat
  dhms_h :: nat
  dhms_m :: nat
  dhms_s :: nat

text \<open>\<^verbatim>\<open>diffToDHMS(target, now)\<close>; \<^verbatim>\<open>Math.max(0, target - now)\<close> is the truncating
  difference of naturals.\<close>

definition diffToDHMS :: "nat \<Rightarrow> nat \<Rightarrow> dhms" where
  "diffToDHMS target now =
     (let ms = target - now;
          totalSec = ms div 1000
      in \<lparr> dhms_d = totalSec div 86400,
           dhms_h = (totalSec mod 86400) div 3600,
           dhms_m = (totalSec mod 3600) div 60,
           dhms_s = totalSec mod 60 \<rparr>)"

text \<open>The state of the countdown and one firing of its \<^verbatim>\<open>setInterval\<close> callback at
  clock reading \<open>now\<close>.\<close>

record countdown =
  target :: nat
  tleft :: dhms

definition tick :: "nat \<Rightarrow> countdown \<Rightarrow> countdown" where
  "tick now c =
     (if target c \<le> now then
        let nextT = getNextMonthResetTarget now
        in \<lparr> target = nextT, tleft = diffToDHMS nextT now \<rparr>
      else c\<lparr> tleft := diffToDHMS (target c) now \<rparr>)"

subsection \<open>The re-fetch schedule\<close>

text \<open>
  \<^verbatim>\<open>getHours\<close>, \<^verbatim>\<open>getMinutes\<close>, \<^verbatim>\<open>setSeconds\<close> and \<^verbatim>\<open>setMinutes\<close> work in the
  client's local time, which follows the rules of the client's time zone. The zone is a
  parameter: \<open>utc_offset z t\<close> is the offset in force at the time value \<open>t\<close>
  (ECMAScript's \<open>LocalTZA(t, true)\<close>) and \<open>local_offset z loc\<close> is the offset under which
  the local time value \<open>loc\<close> is read back (\<open>LocalTZA(loc, false)\<close>); both are in
  milliseconds east of UTC.
\<close>

record zone =
  utc_offset :: "int \<Rightarrow> int"
  local_offset :: "int \<Rightarrow> int"

definition LocalTime :: "zone \<Rightarrow> int \<Rightarrow> int" where
  "LocalTime z t = t + utc_offset z t"

definition UTC_of_local :: "zone \<Rightarrow> int \<Rightarrow> int" where
  "UTC_of_local z loc = loc - local_offset z loc"

definition getHours :: "zone \<Rightarrow> int \<Rightarrow> int" where
  "getHours z t = (LocalTime z t div 3600000) mod 24"

definition getMinutes :: "zone \<Rightarrow> int \<Rightarrow> int" where
  "getMinutes z t = (LocalTime z t div 60000) mod 60"

text \<open>
  \<^verbatim>\<open>t.setSeconds(0, 0)\<close> and \<^verbatim>\<open>t.setMinutes(30, 0, 0)\<close>, giving the new time value:
  the fields are replaced in the local time of \<open>t\<close>, and the result is read back as a
  local time.
\<close>

definition setSeconds_0_0 :: "zone \<Rightarrow> int \<Rightarrow> int" where
  "setSeconds_0_0 z t = UTC_of_local z (LocalTime z t - LocalTime z t mod 60000)"

definition setMinutes_30_0_0 :: "zone \<Rightarrow> int \<Rightarrow> int" where
  "setMinutes_30_0_0 z t =
     UTC_of_local z (LocalTime z t - LocalTime z t mod 3600000 + 30 * 60000)"

definition msUntilNextEvenHour30 :: "zone \<Rightarrow> nat \<Rightarrow> int" where
  "msUntilNextEvenHour30 z now =
     (let t = setSeconds_0_0 z (int now)
      in if getHours z t mod 2 = 0 \<and> getMinutes z t < 30 then
           let cand = setMinutes_30_0_0 z t in cand - int now
         else
           let addHours = (if getHours z t mod 2 = 1 then 1 else 2);
               cand = setMinutes_30_0_0 z (t + addHours * 3600 * 1000)
           in cand - int now)"

text \<open>
  A time value at which the local clock shows an even hour, minute 30, second 0 and
  millisecond 0; and the start of the local clock hour of a time value.
\<close>

definition even_hour_30 :: "zone \<Rightarrow> int \<Rightarrow> bool" where
  "even_hour_30 z t \<longleftrightarrow>
     getHours z t mod 2 = 0 \<and> getMinutes z t = 30 \<and> LocalTime z t mod 60000 = 0"





definition lord_howe_2024 :: zone where
  "lord_howe_2024 =
     \<lparr> utc_offset = (\<lambda>t. if t < 1712415600000 then 39600000 else 37800000),
       local_offset = (\<lambda>loc. if loc < 1712415600000 + 39600000 then 39600000 else 37800000) \<rparr>"

subsection \<open>Country resolver\<close>

text \<open>
  Country names are ASCII text, one \<open>char\<close> per character; on ASCII text
  \<^verbatim>\<open>normalize("NFKD")\<close> and the removal of combining marks change nothing. The
  non-ASCII entries of the alias table are written as their UTF-8 bytes.
\<close>

definition is_space :: "char \<Rightarrow> bool" where
  "is_space c = (c \<in> set [CHR 0x20, CHR 0x09, CHR 0x0A, CHR 0x0B, CHR 0x0C, CHR 0x0D])"

definition trim :: "string \<Rightarrow> string" where
  "trim s = rev (dropWhile is_space (rev (dropWhile is_space s)))"

definition lower_char :: "char \<Rightarrow> char" where
  "lower_char c =
     (case map_of (zip ''ABCDEFGHIJKLMNOPQRSTUVWXYZ'' ''abcdefghijklmnopqrstuvwxyz'') c of
        Some l \<Rightarrow> l | None \<Rightarrow> c)"

definition toLowerCase :: "string \<Rightarrow> string" where
  "toLowerCase s = map lower_char s"

text \<open>\<^verbatim>\<open>.replace(/[().]/g, "")\<close>\<close>

definition strip_punct :: "string \<Rightarrow> string" where
  "strip_punct s = filter (\<lambda>c. c \<notin> set ''().'') s"

text \<open>\<^verbatim>\<open>.replace(/\s+/g, " ")\<close>: every run of white space becomes one blank.\<close>

function collapse_spaces :: "string \<Rightarrow> string" where
  "collapse_spaces [] = []"
| "collapse_spaces (c # cs) =
     (if is_space c then CHR '' '' # collapse_spaces (dropWhile is_space cs)
      else c # collapse_spaces cs)"
  by pat_completeness auto
termination
  by (relation "measure length") (auto simp: length_dropWhile_le less_Suc_eq_le)

text \<open>\<^verbatim>\<open>.normalize("NFKD")\<close> followed by the removal of the combining marks
  (U+0300 to U+036F), on ASCII text.\<close>

definition strip_marks :: "string \<Rightarrow> string" where
  "strip_marks s = s"

text \<open>\<^verbatim>\<open>s.includes(t)\<close>\<close>

fun includes_str :: "string \<Rightarrow> string \<Rightarrow> bool" where
  "includes_str [] t = (t = [])"
| "includes_str (c # cs) t = (take (length t) (c # cs) = t \<or> includes_str cs t)"

text \<open>\<^verbatim>\<open>/^[A-Za-z]{2}$/.test(s)\<close>\<close>

definition two_letters :: "string \<Rightarrow> bool" where
  "two_letters s =
     (length s = 2 \<and> list_all (\<lambda>c. lower_char c \<in> set ''abcdefghijklmnopqrstuvwxyz'') s)"

definition COUNTRY_ALIASES :: "(string \<times> string) list" where
  "COUNTRY_ALIASES =
     [
      (''uk'', ''United Kingdom''),
      (''u.k.'', ''United Kingdom''),
      (''gb'', ''United Kingdom''),
      (''great britain'', ''United Kingdom''),
      (''britain'', ''United Kingdom''),
      (''uae'', ''United Arab Emirates''),
      (''u.a.e.'', ''United Arab Emirates''),
      (''usa'', ''United States of America''),
      (''u.s.a.'', ''United States of America''),
      (''united states'', ''United States of America''),
      (''us'', ''United States of America''),
      (''russia'', ''Russian Federation''),
      (''kyrgyzstan'', ''Kyrgyz Republic''),
      (''czech republic'', ''Czechia''),
      (''ivory coast'', ''C'' @ [CHR 0xC3, CHR 0xB4] @ ''te d'Ivoire''),
      (''cote d'ivoire'', ''C'' @ [CHR 0xC3, CHR 0xB4] @ ''te d'Ivoire''),
      (''c'' @ [CHR 0xC3, CHR 0xB4] @ ''te d'ivoire'', ''C'' @ [CHR 0xC3, CHR 0xB4] @ ''te d'Ivoire''),
      (''dr congo'', ''Congo, Democratic Republic of the''),
      (''democratic republic of the congo'', ''Congo, Democratic Republic of the''),
      (''republic of the congo'', ''Congo''),
      (''swaziland'', ''Eswatini''),
      (''cape verde'', ''Cabo Verde''),
      (''palestine'', ''Palestine, State of''),
      (''iran'', ''Iran, Islamic Republic of''),
      (''syria'', ''Syrian Arab Republic''),
      (''moldova'', ''Moldova, Republic of''),
      (''venezuela'', ''Venezuela, Bolivarian Republic of''),
      (''bolivia'', ''Bolivia, Plurinational State of''),
      (''laos'', ''Lao People's Democratic Republic''),
      (''brunei'', ''Brunei Darussalam''),
      (''vietnam'', ''Viet Nam''),
      (''south korea'', ''Korea, Republic of''),
      (''north korea'', ''Korea, Democratic People's Republic of''),
      (''macau'', ''Macao''),
      (''hong kong'', ''Hong Kong''),
      (''burma'', ''Myanmar''),
      (''myanmar'', ''Myanmar''),
      (''north macedonia'', ''North Macedonia''),
      (''s'' @ [CHR 0xC3, CHR 0xA3] @ ''o tom'' @ [CHR 0xC3, CHR 0xA9] @ '' and pr'' @ [CHR 0xC3, CHR 0xAD] @ ''ncipe'', ''Sao Tome and Principe''),
      (''sao tome and principe'', ''Sao Tome and Principe''),
      (''micronesia'', ''Micronesia, Federated States of''),
      (''st kitts and nevis'', ''Saint Kitts and Nevis''),
      (''saint kitts and nevis'', ''Saint Kitts and Nevis''),
      (''st lucia'', ''Saint Lucia''),
      (''saint lucia'', ''Saint Lucia''),
      (''st vincent and the grenadines'', ''Saint Vincent and the Grenadines''),
      (''saint vincent and the grenadines'', ''Saint Vincent and the Grenadines''),
      (''antigua'', ''Antigua and Barbuda''),
      (''bahamas'', ''Bahamas''),
      (''gambia'', ''Gambia''),
      (''bahrein'', ''Bahrain''),
      (''netherlands the'', ''Netherlands''),
      (''republic of ireland'', ''Ireland''),
      (''eswatini'', ''Eswatini''),
      (''kosovo'', ''Kosovo''),
      (''tanzania'', ''tz''),
      (''tanzania, united republic of'', ''tz''),
      (''united republic of tanzania'', ''tz''),
      (''tanzania united republic of'', ''tz'')
     ]"

text \<open>
  \<^verbatim>\<open>COUNTRY_ALIASES[key]\<close>. The table is an object literal, so a key that is not its own
  is looked up on \<^verbatim>\<open>Object.prototype\<close>, whose properties are functions (and, for
  \<^verbatim>\<open>__proto__\<close>, an object): values that are neither \<^verbatim>\<open>undefined\<close> nor strings.
\<close>

datatype alias_val = NoAlias | AliasName string | Inherited

definition Object_prototype_keys :: "string list" where
  "Object_prototype_keys =
     [''constructor'', ''__defineGetter__'', ''__defineSetter__'', ''hasOwnProperty'',
      ''__lookupGetter__'', ''__lookupSetter__'', ''isPrototypeOf'', ''propertyIsEnumerable'',
      ''toString'', ''valueOf'', ''__proto__'', ''toLocaleString'']"

definition alias_at :: "string \<Rightarrow> alias_val" where
  "alias_at key =
     (case map_of COUNTRY_ALIASES key of
        Some v \<Rightarrow> AliasName v
      | None \<Rightarrow> if key \<in> set Object_prototype_keys then Inherited else NoAlias)"

text \<open>\<^verbatim>\<open>a ?? b\<close> on lookups: the right side is used when the left is \<^verbatim>\<open>undefined\<close>.\<close>

fun alias_or :: "alias_val \<Rightarrow> alias_val \<Rightarrow> alias_val" where
  "alias_or NoAlias b = b"
| "alias_or a b = a"

text \<open>
  A code is a string or nothing (\<^verbatim>\<open>undefined\<close>, \<^verbatim>\<open>null\<close>); \<^verbatim>\<open>!code\<close> holds for
  nothing and for the empty string, and \<^verbatim>\<open>a || b\<close> is \<open>b\<close> when \<open>!a\<close>.
\<close>

fun falsy :: "string option \<Rightarrow> bool" where
  "falsy None = True"
| "falsy (Some s) = (s = [])"

definition or_else :: "string option \<Rightarrow> string option \<Rightarrow> string option" where
  "or_else a b = (if falsy a then b else a)"

text \<open>
  \<^verbatim>\<open>countries.getAlpha2Code(name, "en")\<close> belongs to the library
  \<^verbatim>\<open>i18n-iso-countries\<close>; it is the parameter \<open>getAlpha2Code\<close>, giving an upper-case
  code or nothing.

  \<^verbatim>\<open>resolveCountryAlpha2(rawName)\<close>. The last steps, from the second library lookup on:
\<close>

definition resolve_rest ::
  "(string \<Rightarrow> string option) \<Rightarrow> string \<Rightarrow> string \<Rightarrow> string option \<Rightarrow> error + string option"
where
  "resolve_rest getAlpha2Code cleanedLower fullyNormalized code =
     (let code' = (if falsy code
                   then or_else (getAlpha2Code cleanedLower) (getAlpha2Code fullyNormalized)
                   else code)
      in if falsy code' \<and> includes_str fullyNormalized ''tanzania'' then Inr (Some ''tz'')
         else if falsy code' then Inr None
         else Inr (map_option toLowerCase code'))"

text \<open>
  With an inherited, non-string alias the regular expression does not match, the library
  finds no code for it, and \<^verbatim>\<open>alias.toLowerCase()\<close> is a call of \<^verbatim>\<open>undefined\<close>: a
  \<^verbatim>\<open>TypeError\<close>.
\<close>

definition resolveCountryAlpha2 ::
  "(string \<Rightarrow> string option) \<Rightarrow> string field \<Rightarrow> error + string option"
where
  "resolveCountryAlpha2 getAlpha2Code rawName =
     (case rawName of
        Val name \<Rightarrow>
          if name = [] then Inr None
          else
            let raw = trim name
            in if raw = [] then Inr None
               else
                 let code = getAlpha2Code raw;
                     rawLower = toLowerCase raw;
                     cleanedLower = trim (collapse_spaces (strip_punct rawLower));
                     fullyNormalized =
                       trim (collapse_spaces (strip_punct (strip_marks rawLower)))
                 in if falsy code then
                      (case alias_or (alias_at rawLower)
                              (alias_or (alias_at cleanedLower) (alias_at fullyNormalized)) of
                         NoAlias \<Rightarrow>
                           resolve_rest getAlpha2Code cleanedLower fullyNormalized code
                       | Inherited \<Rightarrow> Inl TypeError
                       | AliasName a \<Rightarrow>
                           if a = [] then
                             resolve_rest getAlpha2Code cleanedLower fullyNormalized code
                           else if two_letters a then Inr (Some (toLowerCase a))
                           else
                             resolve_rest getAlpha2Code cleanedLower fullyNormalized
                               (or_else (getAlpha2Code a)
                                  (if toLowerCase a = ''kosovo'' then Some ''XK'' else None)))
                    else resolve_rest getAlpha2Code cleanedLower fullyNormalized code
      | _ \<Rightarrow> Inr None)"

text \<open>
  \<^verbatim>\<open>getFlagOnly(countryName)\<close> gives the text \<^verbatim>\<open>countryName || ""\<close> when no code is
  found, and otherwise an image of the flag.
\<close>

datatype cell = Text string | Img (src: string) (title: string)

fun or_empty :: "string field \<Rightarrow> string" where
  "or_empty (Val name) = name"
| "or_empty _ = []"

definition getFlagOnly :: "(string \<Rightarrow> string option) \<Rightarrow> string field \<Rightarrow> error + cell" where
  "getFlagOnly getAlpha2Code countryName =
     (case resolveCountryAlpha2 getAlpha2Code countryName of
        Inl e \<Rightarrow> Inl e
      | Inr code \<Rightarrow>
          if falsy code then Inr (Text (or_empty countryName))
          else Inr (Img (''https://flagcdn.com/w40/'' @ the code @ ''.png'')
                        (or_empty countryName)))"

subsection \<open>Local storage and the fetch cycle\<close>

text \<open>
  The item under \<^verbatim>\<open>LS_RANK_KEY\<close>. It is written by \<^verbatim>\<open>loadData\<close> only, as
  \<^verbatim>\<open>JSON.stringify\<close> of a rank map, so it is absent, the JSON text of a rank map, or
  unusable (\<^verbatim>\<open>getItem\<close> or \<^verbatim>\<open>JSON.parse\<close> throws).
\<close>

datatype stored = NoItem | BadItem | RankJson rankmap

text \<open>\<^verbatim>\<open>try { prevMap = JSON.parse(localStorage.getItem(LS_RANK_KEY) || "{}") } catch { prevMap = {} }\<close>\<close>

fun readPrevMap :: "stored \<Rightarrow> rankmap" where
  "readPrevMap NoItem = Map.empty"
| "readPrevMap BadItem = Map.empty"
| "readPrevMap (RankJson m) = m"

text \<open>What a cycle does, in program order.\<close>

datatype event =
    StorageRead
  | SetPrevRankById rankmap
  | Fetch
  | StorageWrite rankmap
  | SetOriginalData "row list"
  | SetData "row list"
  | ConsoleError error

text \<open>
  The store, the React state of \<^verbatim>\<open>App\<close> that \<^verbatim>\<open>loadData\<close> sets, and the log of
  events. \<open>ls_writable\<close> is false when \<^verbatim>\<open>setItem\<close> throws (quota, private mode).
\<close>

record world =
  ls_item :: stored
  ls_writable :: bool
  originalData :: "row list"
  data :: "row list"
  prevRankById :: rankmap
  events :: "event list"

definition emit :: "event list \<Rightarrow> world \<Rightarrow> world" where
  "emit es w = w\<lparr> events := events w @ es \<rparr>"

definition setPrevRankById :: "rankmap \<Rightarrow> world \<Rightarrow> world" where
  "setPrevRankById mp w = emit [SetPrevRankById mp] (w\<lparr> prevRankById := mp \<rparr>)"

definition setOriginalData :: "row list \<Rightarrow> world \<Rightarrow> world" where
  "setOriginalData rs w = emit [SetOriginalData rs] (w\<lparr> originalData := rs \<rparr>)"

definition setData :: "row list \<Rightarrow> world \<Rightarrow> world" where
  "setData rs w = emit [SetData rs] (w\<lparr> data := rs \<rparr>)"

text \<open>\<^verbatim>\<open>try { localStorage.setItem(LS_RANK_KEY, JSON.stringify(nextRankMap)); } catch {}\<close>\<close>

definition setItem :: "rankmap \<Rightarrow> world \<Rightarrow> world" where
  "setItem mp w =
     emit [StorageWrite mp] (if ls_writable w then w\<lparr> ls_item := RankJson mp \<rparr> else w)"

text \<open>
  The build-time configuration, and how the \<^verbatim>\<open>fetch\<close> of one cycle ends: rejected, a
  status outside 2xx (with the body text, if it can be read), or a 2xx response whose body
  parses (\<open>Some\<close>) or not. A parsed body is an array of rows and \<^verbatim>\<open>null\<close>s, or
  something else.
\<close>

record config =
  SUPABASE_URL :: "string option"
  SUPABASE_ANON :: "string option"

datatype body = NotArray | RowArray "row option list"

datatype response = Rejected | NotOk nat "string option" | Ok "body option"

text \<open>
  The \<^verbatim>\<open>try\<close> block of \<^verbatim>\<open>loadData\<close>: the error thrown, if any, and the world at
  that point. \<^verbatim>\<open>rows.sort\<close> of a value that is no array is a \<^verbatim>\<open>TypeError\<close>.
\<close>

definition loadData_try :: "config \<Rightarrow> response \<Rightarrow> world \<Rightarrow> error option \<times> world" where
  "loadData_try cfg resp w =
     (if falsy (SUPABASE_URL cfg) \<or> falsy (SUPABASE_ANON cfg) then (Some ConfigError, w)
      else
        let w0 = emit [StorageRead] w;
            prevMap = readPrevMap (ls_item w0);
            w1 = setPrevRankById prevMap w0;
            w2 = emit [Fetch] w1
        in case resp of
             Rejected \<Rightarrow> (Some NetworkError, w2)
           | NotOk status txt \<Rightarrow>
               (case txt of None \<Rightarrow> (Some NetworkError, w2)
                | Some t \<Rightarrow> (Some (HttpError status), w2))
           | Ok None \<Rightarrow> (Some SyntaxError, w2)
           | Ok (Some NotArray) \<Rightarrow> (Some TypeError, w2)
           | Ok (Some (RowArray rows)) \<Rightarrow>
               (case sort_by comparator rows of
                  Inl e \<Rightarrow> (Some e, w2)
                | Inr sortedRows \<Rightarrow>
                    (case map_norm sortedRows of
                       Inl e \<Rightarrow> (Some e, w2)
                     | Inr nextData \<Rightarrow>
                         let nextRankMap = buildRankMap nextData;
                             w3 = setItem nextRankMap w2
                         in (None, setData nextData (setOriginalData nextData w3)))))"

text \<open>
  \<^verbatim>\<open>loadData\<close>: the \<^verbatim>\<open>catch\<close> block logs the error and empties both lists. The
  result is the settled promise: \<open>Inl\<close> if it rejects.
\<close>

definition loadData :: "config \<Rightarrow> response \<Rightarrow> world \<Rightarrow> error + world" where
  "loadData cfg resp w =
     (case loadData_try cfg resp w of
        (None, w') \<Rightarrow> Inr w'
      | (Some e, w') \<Rightarrow> Inr (setData [] (setOriginalData [] (emit [ConsoleError e] w'))))"


subsection \<open>Sample rows\<close>

text \<open>A row with no column at all, from which examples are built by record update.\<close>

definition blank_row :: row where
  "blank_row =
     \<lparr> customer_name = Undefined, account_id = Undefined, country = Undefined,
       plan = Undefined, equity = Undefined, open_pnl = Undefined,
       pct_change = Undefined, time_taken_hours = Undefined, updated_at = Undefined \<rparr>"

subsection \<open>Worlds of the fetch cycle\<close>

text \<open>A column is missing when the key is absent or its value is \<^verbatim>\<open>null\<close>.\<close>

definition missing :: "'a field \<Rightarrow> bool" where
  "missing v \<longleftrightarrow> v = Undefined \<or> v = Null"

text \<open>The shape of a row after \<^verbatim>\<open>norm\<close>: the three text columns hold strings, and no
  column is absent.\<close>

definition normalized :: "row \<Rightarrow> bool" where
  "normalized r \<longleftrightarrow>
     (\<exists>s. customer_name r = Val s) \<and> (\<exists>s. account_id r = Val s) \<and> (\<exists>s. country r = Val s) \<and>
     plan r \<noteq> Undefined \<and> equity r \<noteq> Undefined \<and> open_pnl r \<noteq> Undefined \<and>
     pct_change r \<noteq> Undefined \<and> time_taken_hours r \<noteq> Undefined \<and> updated_at r \<noteq> Undefined"

text \<open>A first visit: nothing stored, empty lists, no events yet; a configuration with both
  variables set, and one with neither.\<close>

definition fresh_world :: world where
  "fresh_world =
     \<lparr> ls_item = NoItem, ls_writable = True, originalData = [], data = [],
       prevRankById = Map.empty, events = [] \<rparr>"

definition configured :: config where
  "configured = \<lparr> SUPABASE_URL = Some ''https://project.supabase.co'', SUPABASE_ANON = Some ''anon-key'' \<rparr>"


text \<open>The world left by the \<^verbatim>\<open>catch\<close> block, and the world left by the last three steps
  of a successful \<^verbatim>\<open>try\<close> block.\<close>

definition caught :: "error \<Rightarrow> world \<Rightarrow> world" where
  "caught e w = setData [] (setOriginalData [] (emit [ConsoleError e] w))"

definition stored_next :: "row list \<Rightarrow> world \<Rightarrow> world" where
  "stored_next nextData w =
     setData nextData (setOriginalData nextData (setItem (buildRankMap nextData) w))"

text \<open>The world in which the network call of a configured cycle settles.\<close>

definition after_read :: "world \<Rightarrow> world" where
  "after_read w =
     emit [Fetch] (setPrevRankById (readPrevMap (ls_item w)) (emit [StorageRead] w))"

text \<open>
  A later visit: the store holds the map of an earlier cycle, in which \<open>a\<close> was first. A
  response of two rows, \<open>b\<close> with one percent and \<open>a\<close> with two.
\<close>

definition returning_world :: world where
  "returning_world =
     \<lparr> ls_item = RankJson [''a'' \<mapsto> 0], ls_writable = True, originalData = [], data = [],
       prevRankById = Map.empty, events = [] \<rparr>"

definition two_rows_response :: response where
  "two_rows_response =
     Ok (Some (RowArray
       [Some (blank_row\<lparr>account_id := Val ''b'', pct_change := Val (Fin 1)\<rparr>),
        Some (blank_row\<lparr>account_id := Val ''a'', pct_change := Val (Fin 2)\<rparr>)]))"

text \<open>A library table with one entry, matched without regard to case as the library does.\<close>

definition one_country_library :: "string \<Rightarrow> string option" where
  "one_country_library name =
     (if toLowerCase name = ''united states of america'' then Some ''US'' else None)"

section \<open>Properties\<close>

subsection \<open>Duration formatting\<close>

lemma fmtDDHHMM_nonpos:
  assumes "\<forall>x. Number_js v = Fin x \<longrightarrow> x \<le> 0"
  shows "fmtDDHHMM v = ''00:00:00''"
  using assms by (cases "Number_js v") (simp_all add: fmtDDHHMM_def)

text \<open>
  C8. \<^verbatim>\<open>fmtDDHHMM(25)\<close> is \<^verbatim>\<open>"01:01:00"\<close> (one day, one hour, no minutes),
  \<^verbatim>\<open>fmtDDHHMM(0)\<close> and \<^verbatim>\<open>fmtDDHHMM(-5)\<close> are \<^verbatim>\<open>"00:00:00"\<close>, and so is the result
  for every number that is not positive.
\<close>

theorem fmtDDHHMM_examples:
  "fmtDDHHMM (Val (Fin 25)) = ''01:01:00'' \<and>
   fmtDDHHMM (Val (Fin 0)) = ''00:00:00'' \<and>
   fmtDDHHMM (Val (Fin (- 5))) = ''00:00:00'' \<and>
   (\<forall>x. x \<le> 0 \<longrightarrow> fmtDDHHMM (Val (Fin x)) = ''00:00:00'')"
proof (intro conjI allI impI)
  show "fmtDDHHMM (Val (Fin 25)) = ''01:01:00''"
    by (simp add: fmtDDHHMM_def pad2_def Let_def)
  show "fmtDDHHMM (Val (Fin 0)) = ''00:00:00''"
    by (simp add: fmtDDHHMM_nonpos)
  show "fmtDDHHMM (Val (Fin (- 5))) = ''00:00:00''"
    by (simp add: fmtDDHHMM_nonpos)
  show "fmtDDHHMM (Val (Fin x)) = ''00:00:00''" if "x \<le> 0" for x
    using that by (simp add: fmtDDHHMM_nonpos)
qed

theorem fmtDDHHMM_examples_witness:
  "(- 3 / 2 :: real) \<le> 0 \<and> fmtDDHHMM (Val (Fin (- 3 / 2))) = ''00:00:00''"
proof -
  have le: "(- 3 / 2 :: real) \<le> 0" by simp
  from fmtDDHHMM_examples
  have "\<forall>x. x \<le> 0 \<longrightarrow> fmtDDHHMM (Val (Fin x)) = ''00:00:00''"
    by (elim conjE)
  then have "fmtDDHHMM (Val (Fin (- 3 / 2))) = ''00:00:00''" using le by blast
  with le show ?thesis by (rule_tac conjI)
qed

subsection \<open>Rank map\<close>

lemma dom_buildRankMap_from:
  "dom (buildRankMap_from i rows mp) = dom mp \<union> {k \<in> id_of ` set rows. k \<noteq> []}"
  by (induction rows arbitrary: i mp) (auto split: if_splits)

lemma buildRankMap_from_Some:
  "buildRankMap_from i rows mp k = Some v \<Longrightarrow>
     (mp k = Some v \<and> (k = [] \<or> k \<notin> id_of ` set rows)) \<or>
     (k \<noteq> [] \<and> (\<exists>j<length rows. v = i + j \<and> id_of (rows ! j) = k \<and>
         (\<forall>j'. j < j' \<and> j' < length rows \<longrightarrow> id_of (rows ! j') \<noteq> k)))"
proof (induction rows arbitrary: i mp)
  case Nil
  then show ?case by simp
next
  case (Cons r rs)
  let ?mp = "if id_of r \<noteq> [] then mp(id_of r \<mapsto> i) else mp"
  from Cons.prems have run: "buildRankMap_from (Suc i) rs ?mp k = Some v" by simp
  from Cons.IH[OF run] consider
    (old) "?mp k = Some v" "k = [] \<or> k \<notin> id_of ` set rs"
  | (new) j where "k \<noteq> []" "j < length rs" "v = Suc i + j" "id_of (rs ! j) = k"
      "\<forall>j'. j < j' \<and> j' < length rs \<longrightarrow> id_of (rs ! j') \<noteq> k"
    by blast
  then show ?case
  proof cases
    case old
    show ?thesis
    proof (cases "id_of r = k \<and> k \<noteq> []")
      case True
      with old have v: "v = i" and notin: "k \<notin> id_of ` set rs" by auto
      have "\<forall>j'. 0 < j' \<and> j' < length (r # rs) \<longrightarrow> id_of ((r # rs) ! j') \<noteq> k"
        using notin by (auto simp: nth_Cons split: nat.splits)
      with True v show ?thesis by auto
    next
      case False
      with old show ?thesis by (auto split: if_splits)
    qed
  next
    case new
    have "\<forall>j'. Suc j < j' \<and> j' < length (r # rs) \<longrightarrow> id_of ((r # rs) ! j') \<noteq> k"
      using new(5) by (auto simp: nth_Cons split: nat.splits)
    moreover have "Suc j < length (r # rs)" "v = i + Suc j" "id_of ((r # rs) ! Suc j) = k"
      using new by auto
    ultimately show ?thesis using new(1) by blast
  qed
qed

lemma buildRankMap_last:
  assumes "buildRankMap rows k = Some j"
  shows "k \<noteq> [] \<and> j < length rows \<and> id_of (rows ! j) = k \<and>
         (\<forall>j'. j < j' \<and> j' < length rows \<longrightarrow> id_of (rows ! j') \<noteq> k)"
  using buildRankMap_from_Some[of 0 rows Map.empty k j] assms
  by (auto simp: buildRankMap_def)

lemma dom_buildRankMap: "dom (buildRankMap rows) = {k \<in> id_of ` set rows. k \<noteq> []}"
  by (simp add: buildRankMap_def dom_buildRankMap_from)

lemma buildRankMap_inj: "inj_on (buildRankMap rows) (dom (buildRankMap rows))"
proof (rule inj_onI)
  fix a b assume a: "a \<in> dom (buildRankMap rows)" and b: "b \<in> dom (buildRankMap rows)"
    and eq: "buildRankMap rows a = buildRankMap rows b"
  from a obtain j where ja: "buildRankMap rows a = Some j" by auto
  with eq have jb: "buildRankMap rows b = Some j" by simp
  from buildRankMap_last[OF ja] buildRankMap_last[OF jb] show "a = b" by auto
qed

lemma buildRankMap_distinct:
  assumes d: "distinct (map id_of rows)" and ne: "[] \<notin> id_of ` set rows" and j: "j < length rows"
  shows "buildRankMap rows (id_of (rows ! j)) = Some j"
proof -
  have mem: "id_of (rows ! j) \<in> id_of ` set rows"
    using nth_mem[OF j] by (rule imageI)
  with ne have "id_of (rows ! j) \<noteq> []" by metis
  with mem have "id_of (rows ! j) \<in> dom (buildRankMap rows)"
    unfolding dom_buildRankMap by simp
  then obtain j' where s: "buildRankMap rows (id_of (rows ! j)) = Some j'" by auto
  from buildRankMap_last[OF s] have "j' < length rows" "id_of (rows ! j') = id_of (rows ! j)" by auto
  with d j have "j' = j" by (metis (no_types, lifting) distinct_conv_nth length_map nth_map)
  with s show ?thesis by simp
qed

lemma buildRankMap_ran:
  assumes d: "distinct (map id_of rows)" and ne: "[] \<notin> id_of ` set rows"
  shows "ran (buildRankMap rows) = {..<length rows}"
proof
  show "ran (buildRankMap rows) \<subseteq> {..<length rows}"
    using buildRankMap_last by (fastforce simp: ran_def)
  show "{..<length rows} \<subseteq> ran (buildRankMap rows)"
    using buildRankMap_distinct[OF d ne] by (auto simp: ran_def)
qed

text \<open>
  C1, as the code has it. The keys of \<^verbatim>\<open>buildRankMap(rows)\<close> are exactly the non-empty
  identifiers of the rows, and no two keys share a value. The value of an identifier is the
  index, in the whole list, of the last row that carries it (rows with an empty identifier
  keep their place in the count). When the identifiers are non-empty and distinct, the
  values are exactly \<open>0, ..., N - 1\<close> and each row's identifier maps to the row's index.
\<close>

theorem buildRankMap_index_of_last_row:
  "dom (buildRankMap rows) = {k \<in> id_of ` set rows. k \<noteq> []} \<and>
   inj_on (buildRankMap rows) (dom (buildRankMap rows)) \<and>
   (\<forall>k j. buildRankMap rows k = Some j \<longrightarrow>
      j < length rows \<and> id_of (rows ! j) = k \<and>
      (\<forall>j'. j < j' \<and> j' < length rows \<longrightarrow> id_of (rows ! j') \<noteq> k)) \<and>
   (distinct (map id_of rows) \<and> [] \<notin> id_of ` set rows \<longrightarrow>
      ran (buildRankMap rows) = {..<length rows} \<and>
      (\<forall>j<length rows. buildRankMap rows (id_of (rows ! j)) = Some j))"
proof (intro conjI allI impI)
  show "dom (buildRankMap rows) = {k \<in> id_of ` set rows. k \<noteq> []}"
    by (rule dom_buildRankMap)
  show "inj_on (buildRankMap rows) (dom (buildRankMap rows))"
    by (rule buildRankMap_inj)
next
  fix k j assume s: "buildRankMap rows k = Some j"
  from buildRankMap_last[OF s] show "j < length rows" by simp
  from buildRankMap_last[OF s] show "id_of (rows ! j) = k" by simp
  fix j' assume "j < j' \<and> j' < length rows"
  with buildRankMap_last[OF s] show "id_of (rows ! j') \<noteq> k" by blast
next
  assume a: "distinct (map id_of rows) \<and> [] \<notin> id_of ` set rows"
  then show "ran (buildRankMap rows) = {..<length rows}"
    by (simp add: buildRankMap_ran)
  fix j assume "j < length rows"
  with a show "buildRankMap rows (id_of (rows ! j)) = Some j"
    by (simp add: buildRankMap_distinct)
qed

theorem buildRankMap_index_of_last_row_witness:
  "distinct (map id_of [blank_row\<lparr>account_id := Val ''a''\<rparr>, blank_row\<lparr>account_id := Val ''b''\<rparr>]) \<and>
   [] \<notin> id_of ` set [blank_row\<lparr>account_id := Val ''a''\<rparr>, blank_row\<lparr>account_id := Val ''b''\<rparr>] \<and>
   ran (buildRankMap [blank_row\<lparr>account_id := Val ''a''\<rparr>, blank_row\<lparr>account_id := Val ''b''\<rparr>])
     = {..<2}"
proof -
  let ?rows = "[blank_row\<lparr>account_id := Val ''a''\<rparr>, blank_row\<lparr>account_id := Val ''b''\<rparr>]"
  have pre: "distinct (map id_of ?rows) \<and> [] \<notin> id_of ` set ?rows"
    by (simp add: id_of_def blank_row_def)
  from buildRankMap_index_of_last_row[of ?rows]
  have "distinct (map id_of ?rows) \<and> [] \<notin> id_of ` set ?rows \<longrightarrow>
        ran (buildRankMap ?rows) = {..<length ?rows}"
    by blast
  with pre have "ran (buildRankMap ?rows) = {..<2}" by simp
  with pre show ?thesis by blast
qed

text \<open>
  The values are not dense in \<open>0, ..., K - 1\<close> for \<open>K\<close> the number of rows with a
  non-empty identifier: a row without identifier in front of row \<open>a\<close> leaves \<open>a\<close> at
  index 1, with \<open>K = 1\<close>.
\<close>

theorem buildRankMap_dense_counterexample:
  "id_of (blank_row\<lparr>account_id := Val []\<rparr>) = [] \<and>
   id_of (blank_row\<lparr>account_id := Val ''a''\<rparr>) = ''a'' \<and>
   buildRankMap [blank_row\<lparr>account_id := Val []\<rparr>, blank_row\<lparr>account_id := Val ''a''\<rparr>] ''a''
     = Some 1 \<and>
   ran (buildRankMap [blank_row\<lparr>account_id := Val []\<rparr>, blank_row\<lparr>account_id := Val ''a''\<rparr>])
     \<noteq> {..<1}"
  by (simp add: buildRankMap_def id_of_def blank_row_def lessThan_Suc)

subsection \<open>The client-side sort\<close>

lemma sort_key_cases: "sort_key r = NegInf \<or> (\<exists>p. sort_key r = Fin p)"
  by (cases "Number_js (pct_change r)") (simp_all add: sort_key_def)

lemma key_order_trans:
  assumes "\<not> gt0 (js_minus (sort_key b) (sort_key a))" "\<not> gt0 (js_minus (sort_key c) (sort_key b))"
  shows "\<not> gt0 (js_minus (sort_key c) (sort_key a))"
  using assms sort_key_cases[of a] sort_key_cases[of b] sort_key_cases[of c]
  by auto

lemma key_order_flip:
  assumes "gt0 (js_minus (sort_key b) (sort_key a))"
  shows "\<not> gt0 (js_minus (sort_key a) (sort_key b))"
  using assms sort_key_cases[of a] sort_key_cases[of b]
  by auto

text \<open>The three ways an insertion into a non-empty list can end well.\<close>

lemma insert_by_ConsE:
  assumes "insert_by cmp x (y # ys) = Inr zs"
  obtains (behind) c zs' where "cmp x y = Inr c" "gt0 c" "insert_by cmp x ys = Inr zs'"
      "zs = y # zs'"
    | (front) c where "cmp x y = Inr c" "\<not> gt0 c" "zs = x # y # ys"
proof (cases "cmp x y")
  case (Inl e)
  with assms show ?thesis by simp
next
  case (Inr c)
  show ?thesis
  proof (cases "gt0 c")
    case True
    show ?thesis
    proof (cases "insert_by cmp x ys")
      case (Inl e)
      with assms Inr True show ?thesis by simp
    next
      case (Inr zs')
      with assms \<open>cmp x y = Inr c\<close> True show ?thesis by (intro behind[of c zs']) simp_all
    qed
  next
    case False
    with assms Inr show ?thesis by (intro front[of c]) simp_all
  qed
qed

lemma sort_by_ConsE:
  assumes "sort_by cmp (x # xs) = Inr ys"
  obtains ys' where "sort_by cmp xs = Inr ys'" "insert_by cmp x ys' = Inr ys"
  using assms by (cases "sort_by cmp xs") simp_all

lemma insert_by_set: "insert_by cmp x ys = Inr zs \<Longrightarrow> set zs = insert x (set ys)"
proof (induction ys arbitrary: zs)
  case Nil
  then show ?case by auto
next
  case (Cons y ys)
  from Cons.prems show ?case
  proof (cases rule: insert_by_ConsE)
    case (behind c zs')
    with Cons.IH[of zs'] show ?thesis by auto
  next
    case (front c)
    then show ?thesis by simp
  qed
qed

lemma sort_by_set: "sort_by cmp xs = Inr ys \<Longrightarrow> set ys = set xs"
proof (induction xs arbitrary: ys)
  case Nil
  then show ?case by simp
next
  case (Cons x xs)
  from Cons.prems obtain ys' where "sort_by cmp xs = Inr ys'" "insert_by cmp x ys' = Inr ys"
    by (rule sort_by_ConsE)
  with Cons.IH[of ys'] insert_by_set[of cmp x ys' ys] show ?case by simp
qed

lemma insert_by_length: "insert_by cmp x ys = Inr zs \<Longrightarrow> length zs = Suc (length ys)"
proof (induction ys arbitrary: zs)
  case Nil
  then show ?case by auto
next
  case (Cons y ys)
  from Cons.prems show ?case
  proof (cases rule: insert_by_ConsE)
    case (behind c zs')
    with Cons.IH[of zs'] show ?thesis by simp
  next
    case (front c)
    then show ?thesis by simp
  qed
qed

lemma sort_by_length: "sort_by cmp xs = Inr ys \<Longrightarrow> length ys = length xs"
proof (induction xs arbitrary: ys)
  case Nil
  then show ?case by simp
next
  case (Cons x xs)
  from Cons.prems obtain ys' where "sort_by cmp xs = Inr ys'" "insert_by cmp x ys' = Inr ys"
    by (rule sort_by_ConsE)
  with Cons.IH[of ys'] insert_by_length[of cmp x ys' ys] show ?case by simp
qed

lemma comparator_Inr:
  "comparator x y = Inr c \<Longrightarrow>
     \<exists>a b. x = Some a \<and> y = Some b \<and> c = js_minus (sort_key b) (sort_key a)"
  by (auto simp: comparator_def split: option.splits)

lemma insert_by_sorted:
  "sorted_wrt may_precede ys \<Longrightarrow> insert_by comparator x ys = Inr zs \<Longrightarrow>
     sorted_wrt may_precede zs"
proof (induction ys arbitrary: zs)
  case Nil
  then show ?case by auto
next
  case (Cons y ys)
  from Cons.prems(2) show ?case
  proof (cases rule: insert_by_ConsE)
    case (behind c zs')
    from comparator_Inr[OF behind(1)] obtain a b where
      ab: "x = Some a" "y = Some b" "c = js_minus (sort_key b) (sort_key a)" by blast
    from Cons.IH[OF _ behind(3)] Cons.prems(1) have "sorted_wrt may_precede zs'" by simp
    moreover have "may_precede y x"
      using behind(2) ab key_order_flip by (simp add: may_precede_def)
    moreover have "set zs' = insert x (set ys)" using behind(3) by (rule insert_by_set)
    ultimately show ?thesis
      using Cons.prems(1) behind(4) by auto
  next
    case (front c)
    from comparator_Inr[OF front(1)] obtain a b where
      ab: "x = Some a" "y = Some b" "c = js_minus (sort_key b) (sort_key a)" by blast
    have xy: "may_precede x y" using front(2) ab by (simp add: may_precede_def)
    have "may_precede x z" if "z \<in> set ys" for z
    proof -
      from Cons.prems(1) that have "may_precede y z" by simp
      with xy ab show ?thesis
        unfolding may_precede_def using key_order_trans by blast
    qed
    with xy Cons.prems(1) front(3) show ?thesis by simp
  qed
qed

lemma sort_by_sorted: "sort_by comparator xs = Inr ys \<Longrightarrow> sorted_wrt may_precede ys"
proof (induction xs arbitrary: ys)
  case Nil
  then show ?case by simp
next
  case (Cons x xs)
  from Cons.prems obtain ys' where
    "sort_by comparator xs = Inr ys'" "insert_by comparator x ys' = Inr ys"
    by (rule sort_by_ConsE)
  with Cons.IH[of ys'] show ?case by (auto intro: insert_by_sorted)
qed

lemma sorted_finite_descending:
  assumes s: "sort_by comparator rows = Inr ys"
    and ij: "i < j" "j < length ys"
    and a: "ys ! i = Some a" "pct_change a = Val (Fin p)"
    and b: "ys ! j = Some b" "pct_change b = Val (Fin q)"
  shows "q \<le> p"
proof -
  from sort_by_sorted[OF s] ij have "may_precede (ys ! i) (ys ! j)"
    by (simp add: sorted_wrt_iff_nth_less)
  with a b show ?thesis by (simp add: may_precede_def sort_key_def)
qed

lemma map_norm_None: "None \<in> set xs \<Longrightarrow> map_norm xs = Inl TypeError"
proof (induction xs)
  case Nil
  then show ?case by simp
next
  case (Cons x xs)
  show ?case
  proof (cases x)
    case None
    then show ?thesis by simp
  next
    case (Some r)
    with Cons show ?thesis by simp
  qed
qed

lemma map_norm_Inr:
  "map_norm xs = Inr rs \<Longrightarrow> None \<notin> set xs \<and> rs = map (\<lambda>x. norm (the x)) xs"
proof (induction xs arbitrary: rs)
  case Nil
  then show ?case by simp
next
  case (Cons x xs)
  show ?case
  proof (cases x)
    case None
    with Cons.prems show ?thesis by simp
  next
    case (Some r)
    with Cons.prems obtain rs' where "map_norm xs = Inr rs'" "rs = norm r # rs'"
      by (cases "map_norm xs") simp_all
    with Cons.IH[of rs'] Some show ?thesis by simp
  qed
qed

text \<open>
  C5 fails on a row whose \<^verbatim>\<open>pct_change\<close> is \<^verbatim>\<open>null\<close>: \<^verbatim>\<open>Number(null)\<close> is \<open>0\<close>,
  which is finite, so the row is ranked as \<open>0\<close> and the sort moves it in front of a row
  with the finite value \<open>-5\<close>.
\<close>

theorem sort_null_before_negative:
  "sort_by comparator
     [Some (blank_row\<lparr>pct_change := Val (Fin (- 5))\<rparr>), Some (blank_row\<lparr>pct_change := Null\<rparr>)]
   = Inr [Some (blank_row\<lparr>pct_change := Null\<rparr>),
          Some (blank_row\<lparr>pct_change := Val (Fin (- 5))\<rparr>)]"
  by (simp add: comparator_def sort_key_def blank_row_def)

subsection \<open>The net-percent cell\<close>

lemma fmtPct_100: "fmtPct (Val (Fin 100)) = ''+100.00%''"
  by (simp add: fmtPct_def toFixed2_def pad2_def Let_def)

text \<open>A percent-change that overflowed to \<open>Infinity\<close> is capped as well.\<close>

lemma net_pct_infinity:
  assumes "pct_change r = Val PosInf"
  shows "desktop_pct_cell r = ''+100.00%''" and "mobile_pct_cell r = ''+100.00%''"
  using assms
  by (simp_all add: desktop_pct_cell_def mobile_pct_cell_def desktop_n_def mobile_n_def
      numVal_def fmtPct_100)

lemma sort_two:
  assumes "pct_change a = Val (Fin p)" "pct_change b = Val (Fin q)" "q < p"
  shows "sort_by comparator [Some b, Some a] = Inr [Some a, Some b]"
  using assms by (simp add: comparator_def sort_key_def)

text \<open>
  C9. For a row with the finite percent-change \<open>p\<close>, the desktop table and the mobile
  cards both render \<open>min p 100\<close>, so every \<open>p\<close> above 100 shows as \<^verbatim>\<open>+100.00%\<close>. The
  sort key is \<open>p\<close> itself: in a sorted list no row behind this one has a greater finite
  percent-change, and of two rows the one with the greater percent-change comes first, also
  when both exceed 100.
\<close>

theorem net_pct_capped:
  assumes "pct_change r = Val (Fin p)"
  shows "desktop_n r = Val (Fin (min p 100)) \<and> mobile_n r = Val (Fin (min p 100)) \<and>
         desktop_pct_cell r = fmtPct (Val (Fin (min p 100))) \<and>
         mobile_pct_cell r = fmtPct (Val (Fin (min p 100))) \<and>
         (100 < p \<longrightarrow> desktop_pct_cell r = ''+100.00%'' \<and> mobile_pct_cell r = ''+100.00%'') \<and>
         sort_key r = Fin p \<and>
         (\<forall>rows ys i j b q.
            sort_by comparator rows = Inr ys \<and> i < j \<and> j < length ys \<and>
            ys ! i = Some r \<and> ys ! j = Some b \<and> pct_change b = Val (Fin q) \<longrightarrow> q \<le> p) \<and>
         (\<forall>b q. pct_change b = Val (Fin q) \<and> q < p \<longrightarrow>
            sort_by comparator [Some b, Some r] = Inr [Some r, Some b])"
proof -
  have n: "desktop_n r = Val (Fin (min p 100))" "mobile_n r = Val (Fin (min p 100))"
    using assms by (simp_all add: desktop_n_def mobile_n_def numVal_def)
  then have c: "desktop_pct_cell r = fmtPct (Val (Fin (min p 100)))"
    "mobile_pct_cell r = fmtPct (Val (Fin (min p 100)))"
    by (simp_all add: desktop_pct_cell_def mobile_pct_cell_def)
  have "min p 100 = 100" if "100 < p" using that by simp
  with c have cap: "100 < p \<longrightarrow>
      desktop_pct_cell r = ''+100.00%'' \<and> mobile_pct_cell r = ''+100.00%''"
    by (simp add: fmtPct_100)
  have key: "sort_key r = Fin p" using assms by (simp add: sort_key_def)
  have later: "\<forall>rows ys i j b q.
            sort_by comparator rows = Inr ys \<and> i < j \<and> j < length ys \<and>
            ys ! i = Some r \<and> ys ! j = Some b \<and> pct_change b = Val (Fin q) \<longrightarrow> q \<le> p"
    using sorted_finite_descending[where a = r and p = p] assms by blast
  have two: "\<forall>b q. pct_change b = Val (Fin q) \<and> q < p \<longrightarrow>
            sort_by comparator [Some b, Some r] = Inr [Some r, Some b]"
    using sort_two[OF assms] by blast
  from n c cap key later two show ?thesis by (intro conjI)
qed

theorem net_pct_capped_witness:
  "pct_change (blank_row\<lparr>pct_change := Val (Fin 150)\<rparr>) = Val (Fin 150) \<and>
   (100::real) < 150 \<and>
   desktop_pct_cell (blank_row\<lparr>pct_change := Val (Fin 150)\<rparr>) = ''+100.00%'' \<and>
   mobile_pct_cell (blank_row\<lparr>pct_change := Val (Fin 150)\<rparr>) = ''+100.00%''"
proof -
  let ?r = "blank_row\<lparr>pct_change := Val (Fin 150)\<rparr>"
  have pre: "pct_change ?r = Val (Fin 150)" by simp
  have big: "(100::real) < 150" by simp
  from net_pct_capped[OF pre]
  have "100 < (150::real) \<longrightarrow>
      desktop_pct_cell ?r = ''+100.00%'' \<and> mobile_pct_cell ?r = ''+100.00%''"
    by (elim conjE)
  with big have "desktop_pct_cell ?r = ''+100.00%'' \<and> mobile_pct_cell ?r = ''+100.00%''"
    by (rule_tac mp)
  with pre big show ?thesis by (intro conjI) (elim conjE, assumption)+
qed

subsection \<open>The re-fetch schedule\<close>















text \<open>
  Across a clock change the delay is computed with the offsets in force: on Lord Howe
  Island at 2024-04-06T14:30:00Z (local 01:30, half an hour before the clock goes back by
  thirty minutes) the timer is set for local 02:30, ninety minutes away.
\<close>

lemma msUntilNextEvenHour30_lord_howe:
  "msUntilNextEvenHour30 lord_howe_2024 1712413800000 = 5400000 \<and>
   even_hour_30 lord_howe_2024 (1712413800000 + 5400000)"
  by (simp add: msUntilNextEvenHour30_def setSeconds_0_0_def setMinutes_30_0_0_def
      UTC_of_local_def getHours_def getMinutes_def LocalTime_def even_hour_30_def
      lord_howe_2024_def)

subsection \<open>The monthly reset target\<close>

declare year_of_day.simps [simp del] DayFromYear.simps [simp del]

lemma DaysInYear_pos: "0 < DaysInYear y"
  by (simp add: DaysInYear_def)

lemma DayFromYear_Suc: "1970 \<le> y \<Longrightarrow> DayFromYear (Suc y) = DayFromYear y + DaysInYear y"
  by (subst DayFromYear.simps) simp

lemma DayFromYear_mono:
  assumes "y \<le> y'" and "1970 \<le> y"
  shows "DayFromYear y \<le> DayFromYear y'"
  using assms by (induction rule: dec_induct) (simp_all add: DayFromYear_Suc)

text \<open>What \<open>year_of_day\<close> returns: the year whose days contain the day number.\<close>

lemma year_of_day_sound:
  "1970 \<le> y \<Longrightarrow> year_of_day y dn = (y', k) \<Longrightarrow>
     y \<le> y' \<and> k < DaysInYear y' \<and> DayFromYear y + dn = DayFromYear y' + k"
proof (induction y dn rule: year_of_day.induct)
  case (1 y dn)
  show ?case
  proof (cases "dn < DaysInYear y")
    case True
    with "1.prems" show ?thesis by (simp add: year_of_day.simps[of y dn])
  next
    case False
    with "1.prems" have run: "year_of_day (Suc y) (dn - DaysInYear y) = (y', k)"
      by (simp add: year_of_day.simps[of y dn])
    from "1.IH"[OF False _ run] "1.prems"(1)
    have "Suc y \<le> y'" "k < DaysInYear y'"
      "DayFromYear (Suc y) + (dn - DaysInYear y) = DayFromYear y' + k" by simp_all
    with False "1.prems"(1) show ?thesis by (simp add: DayFromYear_Suc)
  qed
qed

lemma year_of_day_unique:
  assumes y: "1970 \<le> y'" and k: "k < DaysInYear y'"
  shows "year_of_day 1970 (DayFromYear y' + k) = (y', k)"
proof -
  obtain y'' k'' where r: "year_of_day 1970 (DayFromYear y' + k) = (y'', k'')"
    by (cases "year_of_day 1970 (DayFromYear y' + k)")
  have z: "DayFromYear 1970 = 0" by (simp add: DayFromYear.simps)
  from year_of_day_sound[OF _ r] z
  have s: "1970 \<le> y''" "k'' < DaysInYear y''" "DayFromYear y' + k = DayFromYear y'' + k''"
    by simp_all
  have "y'' = y'"
  proof (rule ccontr)
    assume "y'' \<noteq> y'"
    then consider "y'' < y'" | "y' < y''" by linarith
    then show False
    proof cases
      case 1
      then have "DayFromYear (Suc y'') \<le> DayFromYear y'"
        using s(1) by (intro DayFromYear_mono) simp_all
      with s show False by (simp add: DayFromYear_Suc)
    next
      case 2
      then have "DayFromYear (Suc y') \<le> DayFromYear y''"
        using y by (intro DayFromYear_mono) simp_all
      with s k y show False by (simp add: DayFromYear_Suc)
    qed
  qed
  with s r show ?thesis by simp
qed

lemma month_of_day_sound:
  "dn < sum_list ls \<Longrightarrow> month_of_day ls mo dn = (mo', j) \<Longrightarrow>
     \<exists>i<length ls. mo' = mo + i \<and> j < ls ! i \<and> dn = sum_list (take i ls) + j"
proof (induction ls arbitrary: mo dn)
  case Nil
  then show ?case by simp
next
  case (Cons l ls)
  show ?case
  proof (cases "dn < l")
    case True
    with Cons.prems have "mo' = mo" "j = dn" by simp_all
    with True show ?thesis by (intro exI[of _ 0]) simp
  next
    case False
    with Cons.prems have run: "month_of_day ls (Suc mo) (dn - l) = (mo', j)"
      and less: "dn - l < sum_list ls" by simp_all
    from Cons.IH[OF less run] obtain i where
      i: "i < length ls" "mo' = Suc mo + i" "j < ls ! i" "dn - l = sum_list (take i ls) + j"
      by blast
    with False show ?thesis by (intro exI[of _ "Suc i"]) simp
  qed
qed

lemma month_of_day_unique:
  "i < length ls \<Longrightarrow> j < ls ! i \<Longrightarrow>
     month_of_day ls mo (sum_list (take i ls) + j) = (mo + i, j)"
proof (induction ls arbitrary: mo i)
  case Nil
  then show ?case by simp
next
  case (Cons l ls)
  then show ?case by (cases i) simp_all
qed

lemma month_lengths_facts:
  "length (month_lengths y) = 12" "sum_list (month_lengths y) = DaysInYear y"
  "\<forall>l \<in> set (month_lengths y). 0 < l"
  by (simp_all add: month_lengths_def DaysInYear_def)

lemma sum_take_less:
  fixes ls :: "nat list"
  assumes "i < length ls" and "0 < ls ! i"
  shows "sum_list (take i ls) + ls ! i \<le> sum_list ls"
proof -
  have "sum_list ls = sum_list (take i ls) + sum_list (drop i ls)"
    by (metis append_take_drop_id sum_list.append)
  moreover have "drop i ls = ls ! i # drop (Suc i) ls"
    using assms(1) by (simp add: Cons_nth_drop_Suc)
  ultimately show ?thesis by simp
qed

lemma month_length_pos: "i < 12 \<Longrightarrow> 0 < month_lengths y ! i"
  using month_lengths_facts(1,3)[of y] by (metis nth_mem)

text \<open>The day number of the first day of the month after month \<open>mo\<close> of year \<open>y\<close>.\<close>

lemma MakeDay_next_month:
  assumes "mo < 12" and "1970 \<le> y"
  shows "MakeDay y (mo + 1) 1 =
           DayFromYear y + sum_list (take mo (month_lengths y)) + month_lengths y ! mo"
proof (cases "mo = 11")
  case True
  then have "MakeDay y (mo + 1) 1 = DayFromYear (Suc y)"
    by (simp add: MakeDay_def)
  also have "\<dots> = DayFromYear y + DaysInYear y"
    using assms(2) by (rule DayFromYear_Suc)
  also have "DaysInYear y = sum_list (take mo (month_lengths y)) + month_lengths y ! mo"
    using True by (simp add: month_lengths_def DaysInYear_def)
  finally show ?thesis by simp
next
  case False
  with assms have "mo + 1 < 12" by simp
  then have "MakeDay y (mo + 1) 1 = DayFromYear y + sum_list (take (Suc mo) (month_lengths y))"
    by (simp add: MakeDay_def)
  moreover have "take (Suc mo) (month_lengths y) = take mo (month_lengths y) @ [month_lengths y ! mo]"
    using assms(1) by (simp add: take_Suc_conv_app_nth month_lengths_facts)
  ultimately show ?thesis by simp
qed

text \<open>The calendar fields of midnight of a day given by year, month and day of month.\<close>

lemma fields_of_day:
  assumes y: "1970 \<le> y" and mo: "mo < 12" and j: "j < month_lengths y ! mo"
  defines "t \<equiv> (DayFromYear y + sum_list (take mo (month_lengths y)) + j) * msPerDay"
  shows "YearFromTime t = y" and "MonthFromTime t = mo" and "DateFromTime t = j + 1"
proof -
  let ?k = "sum_list (take mo (month_lengths y)) + j"
  have dayt: "Day t = DayFromYear y + ?k" by (simp add: t_def Day_def msPerDay_def)
  have "?k < sum_list (take mo (month_lengths y)) + month_lengths y ! mo" using j by simp
  also have "\<dots> \<le> DaysInYear y"
    using sum_take_less[of mo "month_lengths y"] mo month_length_pos[OF mo, of y]
    by (simp add: month_lengths_facts)
  finally have k: "?k < DaysInYear y" .
  from year_of_day_unique[OF y k] have yod: "year_of_day 1970 (Day t) = (y, ?k)"
    by (simp add: dayt add.assoc)
  then show yr: "YearFromTime t = y" by (simp add: YearFromTime_def)
  from yod have dwy: "DayWithinYear t = ?k" by (simp add: DayWithinYear_def)
  have "month_of_day (month_lengths y) 0 ?k = (0 + mo, j)"
    using mo j by (intro month_of_day_unique) (simp_all add: month_lengths_facts)
  then show "MonthFromTime t = mo" "DateFromTime t = j + 1"
    by (simp_all add: MonthFromTime_def DateFromTime_def yr dwy)
qed


lemma now_fields:
  fixes now :: nat
  defines "y \<equiv> YearFromTime now" and "mo \<equiv> MonthFromTime now"
  shows "1970 \<le> y" and "mo < 12"
    and "Day now < DayFromYear y + sum_list (take mo (month_lengths y)) + month_lengths y ! mo"
proof -
  obtain k where yod: "year_of_day 1970 (Day now) = (y, k)"
    by (cases "year_of_day 1970 (Day now)") (simp add: y_def YearFromTime_def)
  have z: "DayFromYear 1970 = 0" by (simp add: DayFromYear.simps)
  from year_of_day_sound[OF _ yod] z
  have s: "1970 \<le> y" "k < DaysInYear y" "Day now = DayFromYear y + k" by simp_all
  show "1970 \<le> y" by (rule s(1))
  from yod have dwy: "DayWithinYear now = k" by (simp add: DayWithinYear_def)
  obtain j where mod: "month_of_day (month_lengths y) 0 k = (mo, j)"
    by (cases "month_of_day (month_lengths y) 0 k")
       (simp add: mo_def MonthFromTime_def dwy y_def[symmetric])
  from month_of_day_sound[OF _ mod] s(2) obtain i where
    i: "i < length (month_lengths y)" "mo = 0 + i" "j < month_lengths y ! i"
      "k = sum_list (take i (month_lengths y)) + j"
    by (auto simp: month_lengths_facts)
  then show "mo < 12" by (simp add: month_lengths_facts)
  from i s(3)
  show "Day now < DayFromYear y + sum_list (take mo (month_lengths y)) + month_lengths y ! mo"
    by simp
qed

lemma target_eq:
  "getNextMonthResetTarget now =
     MakeDay (YearFromTime now) (MonthFromTime now + 1) 1 * msPerDay"
  by (simp add: getNextMonthResetTarget_def Date_UTC_def)

lemma target_future: "now < getNextMonthResetTarget now"
proof -
  let ?T = "MakeDay (YearFromTime now) (MonthFromTime now + 1) 1"
  have "Day now < ?T"
    using now_fields[of now] MakeDay_next_month[of "MonthFromTime now" "YearFromTime now"]
    by simp
  then have "Suc (now div msPerDay) \<le> ?T" by (simp add: Day_def)
  then have "Suc (now div msPerDay) * msPerDay \<le> ?T * msPerDay"
    by (rule mult_le_mono1)
  moreover have "now < Suc (now div msPerDay) * msPerDay"
    using dividend_less_div_times[of msPerDay now] by (simp add: msPerDay_def)
  ultimately show ?thesis by (simp add: target_eq)
qed

lemma target_fields:
  fixes now :: nat
  defines "y \<equiv> YearFromTime now" and "mo \<equiv> MonthFromTime now"
    and "tg \<equiv> getNextMonthResetTarget now"
  shows "tg mod msPerDay = 0" and "DateFromTime tg = 1"
    and "mo < 11 \<Longrightarrow> YearFromTime tg = y \<and> MonthFromTime tg = mo + 1"
    and "mo = 11 \<Longrightarrow> YearFromTime tg = y + 1 \<and> MonthFromTime tg = 0"
proof -
  note nf = now_fields[of now, folded y_def mo_def]
  show "tg mod msPerDay = 0" by (simp add: tg_def target_eq)
  have early: "tg = (DayFromYear y + sum_list (take (mo + 1) (month_lengths y)) + 0) * msPerDay"
    if "mo < 11"
    using that by (simp add: tg_def target_eq MakeDay_def Let_def y_def mo_def)
  have late: "tg = (DayFromYear (y + 1) + sum_list (take 0 (month_lengths (y + 1))) + 0) * msPerDay"
    if "mo = 11"
    using that by (simp add: tg_def target_eq MakeDay_def Let_def y_def mo_def)
  show e: "YearFromTime tg = y \<and> MonthFromTime tg = mo + 1" if "mo < 11"
    using fields_of_day[of y "mo + 1" 0] nf(1) that month_length_pos[of "mo + 1" y]
    by (simp add: early[OF that])
  show l: "YearFromTime tg = y + 1 \<and> MonthFromTime tg = 0" if "mo = 11"
    using fields_of_day[of "y + 1" 0 0] nf(1) month_length_pos[of 0 "y + 1"]
    by (simp add: late[OF that])
  show "DateFromTime tg = 1"
  proof (cases "mo < 11")
    case True
    then show ?thesis
      using fields_of_day(3)[of y "mo + 1" 0] nf(1) month_length_pos[of "mo + 1" y]
      by (simp add: early)
  next
    case False
    with nf(2) have "mo = 11" by simp
    then show ?thesis
      using fields_of_day(3)[of "y + 1" 0 0] nf(1) month_length_pos[of 0 "y + 1"]
      by (simp add: late)
  qed
qed

lemma tick_stale:
  assumes "target c \<le> now"
  shows "target (tick now c) = getNextMonthResetTarget now"
    and "now < target (tick now c)" and "target c < target (tick now c)"
proof -
  show 1: "target (tick now c) = getNextMonthResetTarget now"
    using assms by (simp add: tick_def Let_def)
  with target_future[of now] show "now < target (tick now c)" by simp
  with assms show "target c < target (tick now c)" by simp
qed

lemma tick_fresh: "now < target c \<Longrightarrow> target (tick now c) = target c"
  by (simp add: tick_def)

lemma target_2024_03: "getNextMonthResetTarget 1710496800000 = 1711929600000"
  by (simp add: getNextMonthResetTarget_def YearFromTime_def MonthFromTime_def DayWithinYear_def
      Day_def msPerDay_def Date_UTC_def MakeDay_def month_lengths_def DaysInYear_def
      year_of_day.simps DayFromYear.simps)

lemma target_2024_04: "getNextMonthResetTarget 1711929601000 = 1714521600000"
  by (simp add: getNextMonthResetTarget_def YearFromTime_def MonthFromTime_def DayWithinYear_def
      Day_def msPerDay_def Date_UTC_def MakeDay_def month_lengths_def DaysInYear_def
      year_of_day.simps DayFromYear.simps)

text \<open>
  C4. For every clock reading \<open>now\<close> the reset target is strictly later than \<open>now\<close>,
  and it is 00:00:00.000 UTC on day 1 of the month after the month of \<open>now\<close> (January of
  the next year after December). A countdown tick at which \<open>now\<close> has reached the stored
  target replaces it by the target computed from \<open>now\<close>, which is later than both; any
  other tick keeps the target. 2024-03-15T10:00:00Z gives 2024-04-01T00:00:00Z, and a tick
  at 2024-04-01T00:00:01Z with the stale target 2024-04-01T00:00:00Z gives
  2024-05-01T00:00:00Z.
\<close>

theorem reset_target_next_month:
  "now < getNextMonthResetTarget now \<and>
   getNextMonthResetTarget now mod msPerDay = 0 \<and>
   DateFromTime (getNextMonthResetTarget now) = 1 \<and>
   MonthFromTime now < 12 \<and>
   (MonthFromTime now < 11 \<longrightarrow>
      YearFromTime (getNextMonthResetTarget now) = YearFromTime now \<and>
      MonthFromTime (getNextMonthResetTarget now) = MonthFromTime now + 1) \<and>
   (MonthFromTime now = 11 \<longrightarrow>
      YearFromTime (getNextMonthResetTarget now) = YearFromTime now + 1 \<and>
      MonthFromTime (getNextMonthResetTarget now) = 0) \<and>
   (\<forall>c. target c \<le> now \<longrightarrow>
      target (tick now c) = getNextMonthResetTarget now \<and>
      now < target (tick now c) \<and> target c < target (tick now c)) \<and>
   (\<forall>c. now < target c \<longrightarrow> target (tick now c) = target c) \<and>
   getNextMonthResetTarget 1710496800000 = 1711929600000 \<and>
   (\<forall>tl. target (tick 1711929601000 \<lparr> target = 1711929600000, tleft = tl \<rparr>) = 1714521600000)"
proof (intro conjI allI impI)
  show "now < getNextMonthResetTarget now" by (rule target_future)
  show "getNextMonthResetTarget now mod msPerDay = 0" by (rule target_fields(1))
  show "DateFromTime (getNextMonthResetTarget now) = 1" by (rule target_fields(2))
  show "MonthFromTime now < 12" by (rule now_fields(2))
  show "getNextMonthResetTarget 1710496800000 = 1711929600000" by (rule target_2024_03)
next
  assume "MonthFromTime now < 11"
  from target_fields(3)[OF this]
  show "YearFromTime (getNextMonthResetTarget now) = YearFromTime now"
    and "MonthFromTime (getNextMonthResetTarget now) = MonthFromTime now + 1" by simp_all
next
  assume "MonthFromTime now = 11"
  from target_fields(4)[OF this]
  show "YearFromTime (getNextMonthResetTarget now) = YearFromTime now + 1"
    and "MonthFromTime (getNextMonthResetTarget now) = 0" by simp_all
next
  fix c :: countdown assume "target c \<le> now"
  from tick_stale[OF this]
  show "target (tick now c) = getNextMonthResetTarget now"
    and "now < target (tick now c)" and "target c < target (tick now c)" .
next
  fix c :: countdown assume "now < target c"
  then show "target (tick now c) = target c" by (rule tick_fresh)
next
  fix tl
  have "target \<lparr> target = 1711929600000, tleft = tl \<rparr> \<le> (1711929601000::nat)" by simp
  from tick_stale(1)[OF this]
  show "target (tick 1711929601000 \<lparr> target = 1711929600000, tleft = tl \<rparr>) = 1714521600000"
    by (simp only: target_2024_04)
qed

text \<open>A tick one second after the stored target, with the countdown at zero.\<close>

theorem reset_target_next_month_witness:
  "target \<lparr> target = 1711929600000, tleft = diffToDHMS 0 0 \<rparr> \<le> (1711929601000::nat) \<and>
   (1711929601000::nat)
     < target (tick 1711929601000 \<lparr> target = 1711929600000, tleft = diffToDHMS 0 0 \<rparr>) \<and>
   target \<lparr> target = 1711929600000, tleft = diffToDHMS 0 0 \<rparr>
     < target (tick 1711929601000 \<lparr> target = 1711929600000, tleft = diffToDHMS 0 0 \<rparr>)"
proof -
  let ?c = "\<lparr> target = 1711929600000, tleft = diffToDHMS 0 0 \<rparr>"
  have pre: "target ?c \<le> (1711929601000::nat)" by simp
  have "\<forall>c. target c \<le> (1711929601000::nat) \<longrightarrow>
      target (tick 1711929601000 c) = getNextMonthResetTarget 1711929601000 \<and>
      1711929601000 < target (tick 1711929601000 c) \<and> target c < target (tick 1711929601000 c)"
    using reset_target_next_month[of 1711929601000] by (elim conjE)
  then have "target ?c \<le> (1711929601000::nat) \<longrightarrow>
      target (tick 1711929601000 ?c) = getNextMonthResetTarget 1711929601000 \<and>
      1711929601000 < target (tick 1711929601000 ?c) \<and> target ?c < target (tick 1711929601000 ?c)"
    by (rule spec)
  with pre have "target (tick 1711929601000 ?c) = getNextMonthResetTarget 1711929601000 \<and>
      1711929601000 < target (tick 1711929601000 ?c) \<and> target ?c < target (tick 1711929601000 ?c)"
    by (rule_tac mp)
  with pre show ?thesis by (intro conjI) (elim conjE, assumption)+
qed

subsection \<open>The fetch cycle\<close>

lemma nullish_missing: "missing v \<Longrightarrow> nullish v dflt = dflt"
  by (cases v) (simp_all add: missing_def)

lemma nullish_present: "\<not> missing v \<Longrightarrow> nullish v dflt = v"
  by (cases v) (simp_all add: missing_def)

lemma loadData_try_config:
  "falsy (SUPABASE_URL cfg) \<or> falsy (SUPABASE_ANON cfg) \<Longrightarrow>
     loadData_try cfg resp w = (Some ConfigError, w)"
  by (simp add: loadData_try_def)

lemma after_read_fields:
  "events (after_read w) = events w @ [StorageRead, SetPrevRankById (readPrevMap (ls_item w)), Fetch]"
  "prevRankById (after_read w) = readPrevMap (ls_item w)"
  "ls_item (after_read w) = ls_item w" "ls_writable (after_read w) = ls_writable w"
  "originalData (after_read w) = originalData w" "data (after_read w) = data w"
  by (simp_all add: after_read_def emit_def setPrevRankById_def)

lemma loadData_try_cases:
  assumes cfg: "\<not> falsy (SUPABASE_URL cfg)" "\<not> falsy (SUPABASE_ANON cfg)"
  obtains (fail) e where "loadData_try cfg resp w = (Some e, after_read w)"
      "\<forall>rows sortedRows. resp = Ok (Some (RowArray rows)) \<longrightarrow>
         sort_by comparator rows = Inr sortedRows \<longrightarrow> (\<exists>e. map_norm sortedRows = Inl e)"
    | (success) rows sortedRows nextData where "resp = Ok (Some (RowArray rows))"
      "sort_by comparator rows = Inr sortedRows" "map_norm sortedRows = Inr nextData"
      "loadData_try cfg resp w =
         (None, setData nextData (setOriginalData nextData
                  (setItem (buildRankMap nextData) (after_read w))))"
proof (cases resp)
  case Rejected
  with cfg show ?thesis by (intro fail[of NetworkError]) (simp_all add: loadData_try_def after_read_def Let_def emit_def)
next
  case (NotOk st bt)
  show ?thesis
  proof (cases bt)
    case None
    with NotOk cfg show ?thesis
      by (intro fail[of NetworkError]) (simp_all add: loadData_try_def after_read_def Let_def emit_def)
  next
    case (Some t)
    with NotOk cfg show ?thesis
      by (intro fail[of "HttpError st"]) (simp_all add: loadData_try_def after_read_def Let_def emit_def)
  qed
next
  case (Ok bo)
  show ?thesis
  proof (cases bo)
    case None
    with Ok cfg show ?thesis
      by (intro fail[of SyntaxError]) (simp_all add: loadData_try_def after_read_def Let_def emit_def)
  next
    case (Some bd)
    show ?thesis
    proof (cases bd)
      case NotArray
      with Ok Some cfg show ?thesis
        by (intro fail[of TypeError]) (simp_all add: loadData_try_def after_read_def Let_def emit_def)
    next
      case (RowArray rows)
      show ?thesis
      proof (cases "sort_by comparator rows")
        case (Inl e)
        with Ok Some RowArray cfg show ?thesis
          by (intro fail[of e]) (simp_all add: loadData_try_def after_read_def Let_def emit_def)
      next
        case (Inr sortedRows)
        show ?thesis
        proof (cases "map_norm sortedRows")
          case (Inl e)
          with Ok Some RowArray Inr cfg show ?thesis
            by (intro fail[of e]) (simp_all add: loadData_try_def after_read_def Let_def emit_def)
        next
          case nd: (Inr nextData)
          with Ok Some RowArray Inr cfg show ?thesis
            by (intro success[of rows sortedRows nextData])
               (simp_all add: loadData_try_def after_read_def Let_def emit_def)
        qed
      qed
    qed
  qed
qed

lemma caught_fields:
  "events (caught e w) = events w @ [ConsoleError e, SetOriginalData [], SetData []]"
  "originalData (caught e w) = []" "data (caught e w) = []"
  "prevRankById (caught e w) = prevRankById w" "ls_item (caught e w) = ls_item w"
  by (simp_all add: caught_def emit_def setData_def setOriginalData_def)

lemma stored_next_fields:
  "events (stored_next nd w) =
     events w @ [StorageWrite (buildRankMap nd), SetOriginalData nd, SetData nd]"
  "originalData (stored_next nd w) = nd" "data (stored_next nd w) = nd"
  "prevRankById (stored_next nd w) = prevRankById w"
  "ls_item (stored_next nd w) = (if ls_writable w then RankJson (buildRankMap nd) else ls_item w)"
  by (simp_all add: stored_next_def emit_def setData_def setOriginalData_def setItem_def)

lemma loadData_unconfigured:
  "falsy (SUPABASE_URL cfg) \<or> falsy (SUPABASE_ANON cfg) \<Longrightarrow>
     loadData cfg resp w = Inr (caught ConfigError w)"
  by (simp add: loadData_def loadData_try_config caught_def)

lemma loadData_cases:
  assumes cfg: "\<not> falsy (SUPABASE_URL cfg)" "\<not> falsy (SUPABASE_ANON cfg)"
  obtains (fail) e where "loadData_try cfg resp w = (Some e, after_read w)"
      "loadData cfg resp w = Inr (caught e (after_read w))"
    | (success) rows sortedRows nextData where "resp = Ok (Some (RowArray rows))"
      "sort_by comparator rows = Inr sortedRows" "map_norm sortedRows = Inr nextData"
      "loadData_try cfg resp w = (None, stored_next nextData (after_read w))"
      "loadData cfg resp w = Inr (stored_next nextData (after_read w))"
  using cfg
proof (cases rule: loadData_try_cases[of cfg resp w])
  case (fail e)
  then show ?thesis by (intro that(1)[of e]) (simp_all add: loadData_def caught_def)
next
  case (success rows sortedRows nextData)
  then show ?thesis
    by (intro that(2)[of rows sortedRows nextData]) (simp_all add: loadData_def stored_next_def)
qed

lemma loadData_total: "\<exists>w'. loadData cfg resp w = Inr w'"
proof (cases "falsy (SUPABASE_URL cfg) \<or> falsy (SUPABASE_ANON cfg)")
  case True
  then show ?thesis by (simp add: loadData_unconfigured)
next
  case False
  then have "\<not> falsy (SUPABASE_URL cfg)" "\<not> falsy (SUPABASE_ANON cfg)" by simp_all
  then show ?thesis by (cases rule: loadData_cases[of cfg resp w]) simp_all
qed

lemma loadData_thrown:
  assumes "loadData_try cfg resp w = (Some e, w1)"
  shows "loadData cfg resp w = Inr (caught e w1)"
  using assms by (simp add: loadData_def caught_def)

lemma null_element_throws:
  assumes "None \<in> set rows" and "\<not> falsy (SUPABASE_URL cfg)" "\<not> falsy (SUPABASE_ANON cfg)"
  shows "\<exists>e w1. loadData_try cfg (Ok (Some (RowArray rows))) w = (Some e, w1)"
  using assms(2,3)
proof (cases rule: loadData_cases[of cfg "Ok (Some (RowArray rows))" w])
  case (fail e)
  then show ?thesis by blast
next
  case (success rows' sortedRows nextData)
  then have "set sortedRows = set rows" by (simp add: sort_by_set)
  moreover from success(3) have "None \<notin> set sortedRows" by (simp add: map_norm_Inr)
  ultimately show ?thesis using assms(1) by simp
qed

text \<open>
  C6. \<^verbatim>\<open>loadData\<close> never rejects. When the attempt fails (a configuration variable is
  missing, the request is rejected, the status is outside 2xx, the body does not parse, or
  the parsed body is no array of rows; in general, whenever the \<^verbatim>\<open>try\<close> block throws)
  both list states are replaced by the empty list.
\<close>

theorem loadData_failure_empties:
  "(\<exists>w'. loadData cfg resp w = Inr w') \<and>
   (falsy (SUPABASE_URL cfg) \<or> falsy (SUPABASE_ANON cfg) \<or> resp = Rejected \<or>
    (\<exists>st bt. resp = NotOk st bt) \<or> resp = Ok None \<or> resp = Ok (Some NotArray) \<or>
    (\<exists>rows. resp = Ok (Some (RowArray rows)) \<and> None \<in> set rows) \<or>
    (\<exists>e. fst (loadData_try cfg resp w) = Some e)
    \<longrightarrow> (\<exists>w'. loadData cfg resp w = Inr w' \<and> originalData w' = [] \<and> data w' = []))"
proof (intro conjI impI)
  show "\<exists>w'. loadData cfg resp w = Inr w'" by (rule loadData_total)
next
  assume cause: "falsy (SUPABASE_URL cfg) \<or> falsy (SUPABASE_ANON cfg) \<or> resp = Rejected \<or>
    (\<exists>st bt. resp = NotOk st bt) \<or> resp = Ok None \<or> resp = Ok (Some NotArray) \<or>
    (\<exists>rows. resp = Ok (Some (RowArray rows)) \<and> None \<in> set rows) \<or>
    (\<exists>e. fst (loadData_try cfg resp w) = Some e)"
  have "\<exists>e w1. loadData_try cfg resp w = (Some e, w1)"
  proof (cases "falsy (SUPABASE_URL cfg) \<or> falsy (SUPABASE_ANON cfg)")
    case True
    then show ?thesis by (simp add: loadData_try_config)
  next
    case False
    then have cfg: "\<not> falsy (SUPABASE_URL cfg)" "\<not> falsy (SUPABASE_ANON cfg)" by simp_all
    from cause False consider "resp = Rejected" | "\<exists>st bt. resp = NotOk st bt" | "resp = Ok None"
      | "resp = Ok (Some NotArray)" | "\<exists>rows. resp = Ok (Some (RowArray rows)) \<and> None \<in> set rows"
      | "\<exists>e. fst (loadData_try cfg resp w) = Some e" by blast
    then show ?thesis
    proof cases
      case 5
      with null_element_throws[OF _ cfg] show ?thesis by blast
    next
      case 6
      then show ?thesis by (cases "loadData_try cfg resp w") auto
    qed (use cfg in \<open>cases rule: loadData_cases[of cfg resp w]; auto\<close>)+
  qed
  then obtain e w1 where "loadData_try cfg resp w = (Some e, w1)" by blast
  from loadData_thrown[OF this]
  show "\<exists>w'. loadData cfg resp w = Inr w' \<and> originalData w' = [] \<and> data w' = []"
    by (simp add: caught_fields)
qed

lemma nullish_Val: "\<exists>s. nullish v (Val dflt) = Val s"
  by (cases v) simp_all

lemma nullish_Null: "nullish v Null \<noteq> Undefined"
  by (cases v) simp_all

lemma norm_normalized: "normalized (norm r)"
  by (simp add: normalized_def norm_def nullish_Val nullish_Null)

lemma norm_defaults:
  "customer_name (norm r) = (if missing (customer_name r) then Val [] else customer_name r)"
  "account_id (norm r) = (if missing (account_id r) then Val [] else account_id r)"
  "country (norm r) = (if missing (country r) then Val [] else country r)"
  "plan (norm r) = (if missing (plan r) then Null else plan r)"
  "equity (norm r) = (if missing (equity r) then Null else equity r)"
  "open_pnl (norm r) = (if missing (open_pnl r) then Null else open_pnl r)"
  "pct_change (norm r) = (if missing (pct_change r) then Null else pct_change r)"
  "time_taken_hours (norm r) = (if missing (time_taken_hours r) then Null else time_taken_hours r)"
  "updated_at (norm r) = (if missing (updated_at r) then Null else updated_at r)"
  by (simp_all add: norm_def nullish_missing nullish_present)

lemma loadData_rows:
  assumes "loadData cfg resp w = Inr w'"
  shows "data w' = originalData w'"
    and "originalData w' = [] \<or>
         (\<exists>rows sortedRows. resp = Ok (Some (RowArray rows)) \<and>
            sort_by comparator rows = Inr sortedRows \<and> None \<notin> set sortedRows \<and>
            originalData w' = map (\<lambda>x. norm (the x)) sortedRows)"
proof -
  have "data w' = originalData w' \<and> (originalData w' = [] \<or>
         (\<exists>rows sortedRows. resp = Ok (Some (RowArray rows)) \<and>
            sort_by comparator rows = Inr sortedRows \<and> None \<notin> set sortedRows \<and>
            originalData w' = map (\<lambda>x. norm (the x)) sortedRows))"
  proof (cases "falsy (SUPABASE_URL cfg) \<or> falsy (SUPABASE_ANON cfg)")
    case True
    with assms show ?thesis by (auto simp: loadData_unconfigured caught_fields)
  next
    case False
    then have "\<not> falsy (SUPABASE_URL cfg)" "\<not> falsy (SUPABASE_ANON cfg)" by simp_all
    then show ?thesis
    proof (cases rule: loadData_cases[of cfg resp w])
      case (fail e)
      with assms show ?thesis by (auto simp: caught_fields)
    next
      case (success rows sortedRows nextData)
      from map_norm_Inr[OF success(3)] success(1,2,5) assms show ?thesis
        by (auto simp: stored_next_fields)
    qed
  qed
  then show "data w' = originalData w'"
    and "originalData w' = [] \<or>
         (\<exists>rows sortedRows. resp = Ok (Some (RowArray rows)) \<and>
            sort_by comparator rows = Inr sortedRows \<and> None \<notin> set sortedRows \<and>
            originalData w' = map (\<lambda>x. norm (the x)) sortedRows)" by simp_all
qed

text \<open>
  C10. After every cycle the two list states hold the same rows, and each row is a result
  of \<^verbatim>\<open>norm\<close>: a record of the nine columns in which \<^verbatim>\<open>customer_name\<close>,
  \<^verbatim>\<open>account_id\<close> and \<^verbatim>\<open>country\<close> are strings and no column is absent. After a
  successful fetch the rows are the sorted rows of the response under \<^verbatim>\<open>norm\<close>, and
  \<^verbatim>\<open>norm\<close> puts the empty string for a missing \<^verbatim>\<open>customer_name\<close>, \<^verbatim>\<open>account_id\<close>
  or \<^verbatim>\<open>country\<close> and \<^verbatim>\<open>null\<close> for any other missing column, and keeps every column
  that is present.
\<close>

theorem loadData_rows_normalized:
  assumes "loadData cfg resp w = Inr w'"
  shows "data w' = originalData w' \<and>
         (\<forall>r \<in> set (originalData w'). normalized r \<and> (\<exists>r0. r = norm r0)) \<and>
         (fst (loadData_try cfg resp w) = None \<longrightarrow>
            (\<exists>rows sortedRows. resp = Ok (Some (RowArray rows)) \<and>
               sort_by comparator rows = Inr sortedRows \<and> None \<notin> set sortedRows \<and>
               originalData w' = map (\<lambda>x. norm (the x)) sortedRows)) \<and>
         (\<forall>r0.
            customer_name (norm r0) = (if missing (customer_name r0) then Val [] else customer_name r0) \<and>
            account_id (norm r0) = (if missing (account_id r0) then Val [] else account_id r0) \<and>
            country (norm r0) = (if missing (country r0) then Val [] else country r0) \<and>
            plan (norm r0) = (if missing (plan r0) then Null else plan r0) \<and>
            equity (norm r0) = (if missing (equity r0) then Null else equity r0) \<and>
            open_pnl (norm r0) = (if missing (open_pnl r0) then Null else open_pnl r0) \<and>
            pct_change (norm r0) = (if missing (pct_change r0) then Null else pct_change r0) \<and>
            time_taken_hours (norm r0)
              = (if missing (time_taken_hours r0) then Null else time_taken_hours r0) \<and>
            updated_at (norm r0) = (if missing (updated_at r0) then Null else updated_at r0))"
proof (intro conjI ballI allI impI)
  show "data w' = originalData w'" by (rule loadData_rows(1)[OF assms])
next
  fix r assume r: "r \<in> set (originalData w')"
  with loadData_rows(2)[OF assms] obtain sortedRows where
    "originalData w' = map (\<lambda>x. norm (the x)) sortedRows" by auto
  with r obtain x where "r = norm (the x)" by auto
  then show "normalized r" and "\<exists>r0. r = norm r0" by (auto simp: norm_normalized)
next
  assume ok: "fst (loadData_try cfg resp w) = None"
  show "\<exists>rows sortedRows. resp = Ok (Some (RowArray rows)) \<and>
               sort_by comparator rows = Inr sortedRows \<and> None \<notin> set sortedRows \<and>
               originalData w' = map (\<lambda>x. norm (the x)) sortedRows"
  proof (cases "falsy (SUPABASE_URL cfg) \<or> falsy (SUPABASE_ANON cfg)")
    case True
    with ok show ?thesis by (simp add: loadData_try_config)
  next
    case False
    then have "\<not> falsy (SUPABASE_URL cfg)" "\<not> falsy (SUPABASE_ANON cfg)" by simp_all
    then show ?thesis
    proof (cases rule: loadData_cases[of cfg resp w])
      case (fail e)
      with ok show ?thesis by simp
    next
      case (success rows sortedRows nextData)
      from map_norm_Inr[OF success(3)] success(1,2,5) assms show ?thesis
        by (auto simp: stored_next_fields)
    qed
  qed
qed (simp_all add: norm_defaults)


text \<open>What a configured cycle exposes: the map the store holds when the cycle starts.\<close>

lemma configured_exposes_stored:
  assumes cfg: "\<not> falsy (SUPABASE_URL cfg)" "\<not> falsy (SUPABASE_ANON cfg)"
    and run: "loadData cfg resp w = Inr w'"
  shows "prevRankById w' = readPrevMap (ls_item w)"
  using cfg
proof (cases rule: loadData_cases[of cfg resp w])
  case (fail e)
  with run show ?thesis by (auto simp: caught_fields after_read_fields)
next
  case (success rows sortedRows nextData)
  with run show ?thesis by (auto simp: stored_next_fields after_read_fields)
qed




text \<open>The same cycle in full: the old map is exposed, the new one is stored, and the next
  cycle exposes the new one.\<close>

lemma two_cycles_example:
  assumes "loadData configured two_rows_response returning_world = Inr w1"
    and "loadData configured Rejected w1 = Inr w2"
  shows "prevRankById w1 = [''a'' \<mapsto> 0]"
    and "ls_item w1 = RankJson [''a'' \<mapsto> 0, ''b'' \<mapsto> 1]"
    and "prevRankById w2 = [''a'' \<mapsto> 0, ''b'' \<mapsto> 1]"
proof -
  have w1: "w1 = stored_next
      [norm (blank_row\<lparr>account_id := Val ''a'', pct_change := Val (Fin 2)\<rparr>),
       norm (blank_row\<lparr>account_id := Val ''b'', pct_change := Val (Fin 1)\<rparr>)]
      (after_read returning_world)"
    using assms(1)
    by (auto simp add: loadData_def loadData_try_def configured_def two_rows_response_def
        comparator_def sort_key_def blank_row_def Let_def stored_next_def after_read_def emit_def)
  have mp: "buildRankMap
      [norm (blank_row\<lparr>account_id := Val ''a'', pct_change := Val (Fin 2)\<rparr>),
       norm (blank_row\<lparr>account_id := Val ''b'', pct_change := Val (Fin 1)\<rparr>)]
      = [''a'' \<mapsto> 0, ''b'' \<mapsto> 1]"
    by (simp add: buildRankMap_def id_of_def norm_def blank_row_def)
  show "prevRankById w1 = [''a'' \<mapsto> 0]"
    by (simp add: w1 stored_next_fields after_read_fields returning_world_def)
  show s: "ls_item w1 = RankJson [''a'' \<mapsto> 0, ''b'' \<mapsto> 1]"
    by (simp add: w1 stored_next_fields after_read_fields returning_world_def mp)
  have "prevRankById w2 = readPrevMap (ls_item w1)"
    by (rule configured_exposes_stored[OF _ _ assms(2)]) (simp_all add: configured_def)
  with s show "prevRankById w2 = [''a'' \<mapsto> 0, ''b'' \<mapsto> 1]" by simp
qed


theorem loadData_failure_empties_witness:
  "\<exists>w'. loadData configured (NotOk 500 (Some ''Internal Server Error'')) fresh_world = Inr w' \<and>
      originalData w' = [] \<and> data w' = []"
proof -
  have "\<exists>st bt. NotOk 500 (Some ''Internal Server Error'') = NotOk st bt" by blast
  with loadData_failure_empties[of configured "NotOk 500 (Some ''Internal Server Error'')" fresh_world]
  show ?thesis by blast
qed

theorem loadData_rows_normalized_witness:
  "\<exists>w'. loadData configured (Ok (Some (RowArray [Some blank_row]))) fresh_world = Inr w' \<and>
      data w' = originalData w' \<and> originalData w' = [norm blank_row] \<and>
      (\<forall>r \<in> set (originalData w'). normalized r)"
proof -
  obtain w' where run: "loadData configured (Ok (Some (RowArray [Some blank_row]))) fresh_world = Inr w'"
    using loadData_total by blast
  have ok: "fst (loadData_try configured (Ok (Some (RowArray [Some blank_row]))) fresh_world) = None"
    by (simp add: loadData_try_def configured_def Let_def)
  from loadData_rows_normalized[OF run] ok
  have "data w' = originalData w'" "\<forall>r \<in> set (originalData w'). normalized r"
    "\<exists>rows sortedRows. Ok (Some (RowArray [Some blank_row])) = Ok (Some (RowArray rows)) \<and>
       sort_by comparator rows = Inr sortedRows \<and> None \<notin> set sortedRows \<and>
       originalData w' = map (\<lambda>x. norm (the x)) sortedRows"
    by blast+
  then show ?thesis using run by auto
qed

subsection \<open>Country resolver\<close>

lemma alias_usa: "alias_at ''usa'' = AliasName ''United States of America''"
  by (simp add: alias_at_def COUNTRY_ALIASES_def)

lemma alias_atlantis: "alias_at ''atlantis'' = NoAlias"
  by (simp add: alias_at_def COUNTRY_ALIASES_def Object_prototype_keys_def)

lemma alias_constructor: "alias_at ''constructor'' = Inherited"
  by (simp add: alias_at_def COUNTRY_ALIASES_def Object_prototype_keys_def)

lemma strings_usa:
  "trim ''USA'' = ''USA''" "toLowerCase ''USA'' = ''usa''"
  "trim (collapse_spaces (strip_punct ''usa'')) = ''usa''"
  "toLowerCase ''US'' = ''us''"
  "two_letters ''United States of America'' = False"
  by (simp_all add: trim_def toLowerCase_def lower_char_def is_space_def strip_punct_def
      two_letters_def)

text \<open>
  With a library that knows the United States under its full name (and \<^verbatim>\<open>"USA"\<close> either
  not at all or as \<open>US\<close>), \<^verbatim>\<open>"USA"\<close> resolves to \<^verbatim>\<open>"us"\<close>.
\<close>

lemma resolveCountryAlpha2_USA:
  assumes "getAlpha2Code ''USA'' = None \<or> getAlpha2Code ''USA'' = Some ''US''"
    and "getAlpha2Code ''United States of America'' = Some ''US''"
  shows "resolveCountryAlpha2 getAlpha2Code (Val ''USA'') = Inr (Some ''us'')"
  using assms
  by (auto simp add: resolveCountryAlpha2_def resolve_rest_def strings_usa strip_marks_def
      alias_usa or_else_def Let_def)

lemma strings_atlantis:
  "trim ''Atlantis'' = ''Atlantis''" "toLowerCase ''Atlantis'' = ''atlantis''"
  "trim (collapse_spaces (strip_punct ''atlantis'')) = ''atlantis''"
  "includes_str ''atlantis'' ''tanzania'' = False"
  by (simp_all add: trim_def toLowerCase_def lower_char_def is_space_def strip_punct_def)

text \<open>
  With a library that does not know Atlantis, no code is found and \<^verbatim>\<open>getFlagOnly\<close> gives
  the text back.
\<close>

lemma getFlagOnly_Atlantis:
  assumes "getAlpha2Code ''Atlantis'' = None" and "getAlpha2Code ''atlantis'' = None"
  shows "resolveCountryAlpha2 getAlpha2Code (Val ''Atlantis'') = Inr None"
    and "getFlagOnly getAlpha2Code (Val ''Atlantis'') = Inr (Text ''Atlantis'')"
proof -
  show r: "resolveCountryAlpha2 getAlpha2Code (Val ''Atlantis'') = Inr None"
    using assms
    by (simp add: resolveCountryAlpha2_def resolve_rest_def strings_atlantis strip_marks_def
        alias_atlantis or_else_def Let_def)
  show "getFlagOnly getAlpha2Code (Val ''Atlantis'') = Inr (Text ''Atlantis'')"
    by (simp add: getFlagOnly_def r)
qed

lemma country_examples:
  "resolveCountryAlpha2 one_country_library (Val ''USA'') = Inr (Some ''us'')"
  "getFlagOnly one_country_library (Val ''Atlantis'') = Inr (Text ''Atlantis'')"
proof -
  have lib: "one_country_library ''USA'' = None"
    "one_country_library ''United States of America'' = Some ''US''"
    "one_country_library ''Atlantis'' = None" "one_country_library ''atlantis'' = None"
    by (simp_all add: one_country_library_def toLowerCase_def lower_char_def)
  show "resolveCountryAlpha2 one_country_library (Val ''USA'') = Inr (Some ''us'')"
    by (rule resolveCountryAlpha2_USA) (simp_all add: lib)
  show "getFlagOnly one_country_library (Val ''Atlantis'') = Inr (Text ''Atlantis'')"
    by (rule getFlagOnly_Atlantis(2)) (simp_all add: lib)
qed

lemma strings_constructor:
  "trim ''constructor'' = ''constructor''" "toLowerCase ''constructor'' = ''constructor''"
  by (simp_all add: trim_def toLowerCase_def lower_char_def is_space_def)

text \<open>
  C7 fails on the country text \<^verbatim>\<open>"constructor"\<close>, for which the library has no code: the
  alias lookup finds the inherited \<^verbatim>\<open>Object.prototype.constructor\<close>, and resolution ends
  in a \<^verbatim>\<open>TypeError\<close> instead of giving the text back.
\<close>

theorem resolveCountryAlpha2_constructor_throws:
  assumes "falsy (getAlpha2Code ''constructor'')"
  shows "resolveCountryAlpha2 getAlpha2Code (Val ''constructor'') = Inl TypeError \<and>
         getFlagOnly getAlpha2Code (Val ''constructor'') = Inl TypeError"
proof -
  have r: "resolveCountryAlpha2 getAlpha2Code (Val ''constructor'') = Inl TypeError"
    using assms
    by (simp add: resolveCountryAlpha2_def strings_constructor alias_constructor Let_def)
  then show ?thesis by (simp add: getFlagOnly_def)
qed

theorem resolveCountryAlpha2_constructor_throws_witness:
  "falsy (one_country_library ''constructor'') \<and>
   resolveCountryAlpha2 one_country_library (Val ''constructor'') = Inl TypeError \<and>
   getFlagOnly one_country_library (Val ''constructor'') = Inl TypeError"
proof -
  have pre: "falsy (one_country_library ''constructor'')"
    by (simp add: one_country_library_def strings_constructor)
  from resolveCountryAlpha2_constructor_throws[of one_country_library, OF pre] pre
  show ?thesis by (intro conjI) simp_all
qed

end
